theory Spec2Isabelle
  imports Complex_Main "HOL-Library.Stream"
begin

section \<open>Strings\<close>

text \<open>
  Python's \<^verbatim>\<open>str.lower()\<close> and \<^verbatim>\<open>str.upper()\<close>, on the ASCII letters: addresses
  and referral codes are ASCII, and a \<^typ>\<open>char\<close> is a byte.
\<close>

definition lower_char :: "char \<Rightarrow> char" where
  "lower_char c =
     (case map_of (zip ''ABCDEFGHIJKLMNOPQRSTUVWXYZ'' ''abcdefghijklmnopqrstuvwxyz'') c of
        Some d \<Rightarrow> d
      | None \<Rightarrow> c)"

definition upper_char :: "char \<Rightarrow> char" where
  "upper_char c =
     (case map_of (zip ''abcdefghijklmnopqrstuvwxyz'' ''ABCDEFGHIJKLMNOPQRSTUVWXYZ'') c of
        Some d \<Rightarrow> d
      | None \<Rightarrow> c)"

definition lower :: "string \<Rightarrow> string" where
  "lower s = map lower_char s"

definition upper :: "string \<Rightarrow> string" where
  "upper s = map upper_char s"

section \<open>The sheets\<close>

text \<open>
  One record per row of each worksheet, the columns as the headers of
  \<^verbatim>\<open>_get_or_create_worksheet\<close> name them. The columns \<^verbatim>\<open>referral_code\<close> and
  \<^verbatim>\<open>created_at\<close> exist in two sheets; in the Referrals sheet they are called
  \<open>used_code\<close> and \<open>recorded_created_at\<close> here. A swap amount is a finite float,
  hence a rational number; the comparison of the source is exact on those.
\<close>

record code_row =
  address :: string
  referral_code :: string
  rarity :: string
  rolls_used :: int
  is_active :: bool
  created_at :: string

record referral_row =
  referrer_address :: string
  used_code :: string
  referred_address :: string
  swap_amount_usdc :: rat
  swap_timestamp :: string
  signup_bonus_paid :: bool
  referee_bonus_paid :: bool
  recorded_created_at :: string

record balance_row =
  date :: string
  snapshot_address :: string
  usdx_balance :: rat
  recorded_at :: string

record service =
  enabled :: bool
  codes_sheet :: "code_row list"
  referrals_sheet :: "referral_row list"
  daily_balances_sheet :: "balance_row list"

section \<open>Constants of \<^verbatim>\<open>ReferralService\<close>\<close>

definition SIGNUP_BONUS :: int where "SIGNUP_BONUS = 1000"
definition REFEREE_BONUS :: int where "REFEREE_BONUS = 1000"
definition MIN_SWAP_AMOUNT :: int where "MIN_SWAP_AMOUNT = 100"
definition BASE_ROLLS :: int where "BASE_ROLLS = 3"
definition BONUS_ROLLS :: int where "BONUS_ROLLS = 3"
definition UNLOCK_THRESHOLD :: int where "UNLOCK_THRESHOLD = 3"

record special_code =
  sc_min_swap :: int
  sc_bonus_points :: int
  sc_description :: string

definition SPECIAL_CODES :: "(string \<times> special_code) list" where
  "SPECIAL_CODES =
     [(''PUNK'', \<lparr>sc_min_swap = 5, sc_bonus_points = 500,
                 sc_description = ''Solana Cypherpunk Hackathon code''\<rparr>),
      (''LAUNCH'', \<lparr>sc_min_swap = 10, sc_bonus_points = 250,
                   sc_description = ''Launch week special''\<rparr>),
      (''VIP'', \<lparr>sc_min_swap = 5, sc_bonus_points = 1000,
                sc_description = ''VIP early access''\<rparr>)]"

section \<open>Addresses\<close>

text \<open>
  \<^verbatim>\<open>_validate_address\<close> asks two libraries that are not part of the repository:
  \<^verbatim>\<open>Web3.is_address\<close> with \<^verbatim>\<open>Web3.to_checksum_address\<close>, and
  \<^verbatim>\<open>Pubkey.from_string\<close>, which raises on a string that is no public key. They are
  a parameter of the model.
\<close>

record addr_lib =
  is_address :: "string \<Rightarrow> bool"
  to_checksum_address :: "string \<Rightarrow> string"
  pubkey_from_string_ok :: "string \<Rightarrow> bool"

datatype addr_type = Evm | Solana

record addr_info =
  valid :: bool
  atype :: "addr_type option"
  normalized :: string

definition validate_address :: "addr_lib \<Rightarrow> string \<Rightarrow> addr_info" where
  "validate_address L a =
     (if is_address L a then
        \<lparr>valid = True, atype = Some Evm, normalized = to_checksum_address L a\<rparr>
      else if pubkey_from_string_ok L a then
        \<lparr>valid = True, atype = Some Solana, normalized = a\<rparr>
      else \<lparr>valid = False, atype = None, normalized = a\<rparr>)"

section \<open>Looking codes up\<close>

definition count_successful_referrals :: "service \<Rightarrow> string \<Rightarrow> int" where
  "count_successful_referrals s a =
     int (length (filter (\<lambda>r. lower (referrer_address r) = lower a) (referrals_sheet s)))"

definition max_rolls_of :: "service \<Rightarrow> string \<Rightarrow> int" where
  "max_rolls_of s a =
     (if count_successful_referrals s a \<ge> UNLOCK_THRESHOLD then BASE_ROLLS + BONUS_ROLLS
      else BASE_ROLLS)"

definition get_address_by_code :: "service \<Rightarrow> string \<Rightarrow> string option" where
  "get_address_by_code s code =
     (if \<not> enabled s then None
      else if map_of SPECIAL_CODES (upper code) \<noteq> None then Some ''SPECIAL_CODE''
      else (case find (\<lambda>row. upper (referral_code row) = upper code) (codes_sheet s) of
              None \<Rightarrow> None
            | Some row \<Rightarrow> Some (address row)))"

text \<open>Python's truth value of an \<^verbatim>\<open>Optional[str]\<close>: \<^verbatim>\<open>None\<close> and the empty string are false.\<close>

definition truthy :: "string option \<Rightarrow> bool" where
  "truthy x = (case x of None \<Rightarrow> False | Some v \<Rightarrow> v \<noteq> [])"

record benefits =
  min_swap :: int
  bonus_points :: int
  description :: string
  is_special :: bool
  is_valid :: bool

definition get_code_benefits :: "service \<Rightarrow> string \<Rightarrow> benefits" where
  "get_code_benefits s code =
     (case map_of SPECIAL_CODES (upper code) of
        Some b \<Rightarrow> \<lparr>min_swap = sc_min_swap b, bonus_points = sc_bonus_points b,
                   description = sc_description b, is_special = True, is_valid = True\<rparr>
      | None \<Rightarrow>
          (let referrer = get_address_by_code s code in
           if truthy referrer \<and> referrer \<noteq> Some ''SPECIAL_CODE'' then
             \<lparr>min_swap = MIN_SWAP_AMOUNT, bonus_points = 0,
              description = ''Standard referral code'', is_special = False, is_valid = True\<rparr>
           else
             \<lparr>min_swap = MIN_SWAP_AMOUNT, bonus_points = 0,
              description = ''Invalid code'', is_special = False, is_valid = False\<rparr>))"

definition check_if_referred :: "service \<Rightarrow> string \<Rightarrow> (string \<times> string) option" where
  "check_if_referred s a =
     (if \<not> enabled s then None
      else (case find (\<lambda>row. lower (referred_address row) = lower a) (referrals_sheet s) of
              None \<Rightarrow> None
            | Some row \<Rightarrow> Some (referrer_address row, used_code row)))"

section \<open>Recording a referral\<close>

text \<open>
  \<^verbatim>\<open>record_referral\<close> returns a dictionary with \<^verbatim>\<open>success\<close> and either an error text
  or the bonuses; the error texts are the constructors of \<open>record_error\<close>. The time
  stamp comes from the clock and is an argument. A call returns its result and the
  service with its sheets as the call leaves them.
\<close>

datatype record_error =
    ServiceDisabled
  | InvalidReferralCode
  | InvalidReferrerAddress
  | InvalidReferredAddress
  | AddressAlreadyReferred
  | SwapBelowMinimum int

record record_ok =
  referrer_bonus :: int
  referee_bonus :: int
  ok_is_special :: bool
  ok_description :: string

definition PLACEHOLDER_ADDRESS :: string where
  "PLACEHOLDER_ADDRESS = ''0x0000000000000000000000000000000000000000''"

definition record_referral ::
  "addr_lib \<Rightarrow> string \<Rightarrow> service \<Rightarrow> string \<Rightarrow> string \<Rightarrow> rat \<Rightarrow> string
     \<Rightarrow> (record_error + record_ok) \<times> service" where
  "record_referral L now s referrer referred amount code =
     (if \<not> enabled s then (Inl ServiceDisabled, s)
      else
        let code_benefits = get_code_benefits s code in
        if \<not> is_valid code_benefits then (Inl InvalidReferralCode, s)
        else
          let min_amount = min_swap code_benefits;
              referrer_info = validate_address L referrer in
          if referrer \<noteq> ''SPECIAL_CODE'' \<and> \<not> valid referrer_info
          then (Inl InvalidReferrerAddress, s)
          else
            let referrer' = (if referrer = ''SPECIAL_CODE'' then PLACEHOLDER_ADDRESS
                             else normalized referrer_info);
                referred_info = validate_address L referred in
            if \<not> valid referred_info then (Inl InvalidReferredAddress, s)
            else
              let referred' = normalized referred_info in
              if \<exists>row \<in> set (referrals_sheet s).
                   lower (referred_address row) = lower referred'
              then (Inl AddressAlreadyReferred, s)
              else if amount < of_int min_amount then (Inl (SwapBelowMinimum min_amount), s)
              else
                let bonus_referrer = (if referrer' \<noteq> PLACEHOLDER_ADDRESS then SIGNUP_BONUS else 0);
                    bonus_referee = REFEREE_BONUS + bonus_points code_benefits;
                    row = \<lparr>referrer_address = referrer', used_code = code,
                           referred_address = referred', swap_amount_usdc = amount,
                           swap_timestamp = now, signup_bonus_paid = True,
                           referee_bonus_paid = True, recorded_created_at = now\<rparr>
                in (Inr \<lparr>referrer_bonus = bonus_referrer, referee_bonus = bonus_referee,
                         ok_is_special = is_special code_benefits,
                         ok_description = description code_benefits\<rparr>,
                    s\<lparr>referrals_sheet := referrals_sheet s @ [row]\<rparr>))"

section \<open>The endpoint \<^verbatim>\<open>POST /referrals/use\<close>\<close>

text \<open>
  \<^verbatim>\<open>use_referral_code\<close> of the router is the operation the specification calls
  \<open>useCode\<close>. Each \<^verbatim>\<open>HTTPException\<close> it raises is a constructor of \<open>use_error\<close>:
  \<open>InvalidAddress\<close> (400), \<open>UnknownCode\<close> (404), \<open>AlreadyReferred\<close> (400),
  \<open>SelfReferral\<close> (400) and \<open>RecordFailed\<close> (400, with the error of
  \<^verbatim>\<open>record_referral\<close>). The display message of the success response is left out.
\<close>

datatype use_error =
    InvalidAddress
  | UnknownCode
  | AlreadyReferred
  | SelfReferral
  | RecordFailed record_error

record use_ok =
  data_referrer_address :: string
  data_referred_address :: string
  data_referrer_bonus :: int
  data_referee_bonus :: int
  data_is_special :: bool
  data_description :: string

definition use_referral_code ::
  "addr_lib \<Rightarrow> string \<Rightarrow> service \<Rightarrow> string \<Rightarrow> string \<Rightarrow> rat
     \<Rightarrow> (use_error + use_ok) \<times> service" where
  "use_referral_code L now s code referred amount =
     (let addr_info = validate_address L referred in
      if \<not> valid addr_info then (Inl InvalidAddress, s)
      else
        let referred_checksum = normalized addr_info;
            referrer = get_address_by_code s code in
        if \<not> truthy referrer then (Inl UnknownCode, s)
        else if check_if_referred s referred_checksum \<noteq> None then (Inl AlreadyReferred, s)
        else if lower (the referrer) = lower referred_checksum then (Inl SelfReferral, s)
        else
          (case record_referral L now s (the referrer) referred_checksum amount code of
             (Inl e, s') \<Rightarrow> (Inl (RecordFailed e), s')
           | (Inr r, s') \<Rightarrow>
               (Inr \<lparr>data_referrer_address = the referrer,
                      data_referred_address = referred_checksum,
                      data_referrer_bonus = referrer_bonus r,
                      data_referee_bonus = referee_bonus r,
                      data_is_special = ok_is_special r,
                      data_description = ok_description r\<rparr>, s')))"

section \<open>The random source\<close>

text \<open>
  Modelled library: Python's \<^verbatim>\<open>random\<close> module, which is not part of the repository.
  The generator is an explicit stream of raw draws; every call consumes one draw and
  reduces it to the range asked for, so that the caller threads the stream through.
  \<^verbatim>\<open>random.random()\<close> is a multiple of \<open>2\<^sup>-\<^sup>5\<^sup>3\<close> in \<open>[0, 1)\<close>;
  \<^verbatim>\<open>random.randint(a, b)\<close> lies in \<open>[a, b]\<close>; \<^verbatim>\<open>random.choice\<close> indexes its sequence,
  which is one of the non-empty constant lists below at every call of the source.
\<close>

type_synonym rng = "nat stream"

definition random_random :: "rng \<Rightarrow> rat \<times> rng" where
  "random_random g = (of_nat (shd g mod 2 ^ 53) / 2 ^ 53, stl g)"

definition randint :: "nat \<Rightarrow> nat \<Rightarrow> rng \<Rightarrow> nat \<times> rng" where
  "randint a b g = (a + shd g mod (b - a + 1), stl g)"

definition choice :: "'a list \<Rightarrow> rng \<Rightarrow> 'a \<times> rng" where
  "choice xs g = (xs ! (shd g mod length xs), stl g)"

section \<open>The rarity tables\<close>

text \<open>
  The weights are the decimal literals of the source, taken at their decimal value. The
  dictionaries are lists of pairs in the order of the source, which is the order Python
  iterates them in.
\<close>

record tier_data =
  weight :: rat
  colors :: "string list"
  words :: "string list"

definition RARITY_TIERS :: "(string \<times> tier_data) list" where
  "RARITY_TIERS =
     [(''MYTHIC'', \<lparr>weight = 5 / 1000,
         colors = [''GOLD'', ''RAINBOW'', ''COSMIC'', ''DIVINE'', ''CELESTIAL'', ''ETERNAL''],
         words = [''SATOSHI'', ''WHALE'', ''MOON'', ''LEGEND'', ''TITAN'', ''INFINITY'']\<rparr>),
      (''LEGENDARY'', \<lparr>weight = 3 / 100,
         colors = [''DIAMOND'', ''PLATINUM'', ''LASER'', ''CRYSTAL'', ''PRISMATIC'', ''RADIANT''],
         words = [''LAMBO'', ''ROCKET'', ''BULL'', ''APE'', ''HODL'', ''DRAGON'', ''PHOENIX'']\<rparr>),
      (''EPIC'', \<lparr>weight = 6 / 100,
         colors = [''VIOLET'', ''AMETHYST'', ''ORCHID'', ''MAGENTA'', ''INDIGO'', ''ROYAL''],
         words = [''COMET'', ''NOVA'', ''METEOR'', ''THUNDER'', ''LIGHTNING'', ''TEMPEST'',
                  ''STORM'']\<rparr>),
      (''RARE'', \<lparr>weight = 14 / 100,
         colors = [''SAPPHIRE'', ''AZURE'', ''COBALT'', ''NAVY'', ''OCEAN'', ''STEEL''],
         words = [''STAR'', ''GALAXY'', ''ORBIT'', ''STELLAR'', ''QUANTUM'', ''NEBULA'',
                  ''COSMIC'']\<rparr>),
      (''UNCOMMON'', \<lparr>weight = 25 / 100,
         colors = [''EMERALD'', ''JADE'', ''FOREST'', ''LIME'', ''MINT'', ''OLIVE''],
         words = [''BLAZE'', ''FROST'', ''SHADOW'', ''CLOUD'', ''ECHO'', ''FLASH'', ''SPARK'']\<rparr>),
      (''COMMON'', \<lparr>weight = 515 / 1000,
         colors = [''GRAY'', ''SILVER'', ''ASH'', ''SLATE'', ''SMOKE'', ''STONE'', ''IRON''],
         words = [''WAVE'', ''WIND'', ''FIRE'', ''LEAF'', ''RIVER'', ''SAND'', ''SKY'',
                  ''DAWN'']\<rparr>)]"

definition LENGTH_WEIGHTS :: "(nat \<times> rat) list" where
  "LENGTH_WEIGHTS = [(1, 5 / 100), (2, 85 / 100), (3, 10 / 100)]"

datatype pattern = lucky | regular | ultra_rare | rare | uncommon | common

definition SPECIAL_NUMBERS :: "nat \<Rightarrow> pattern \<Rightarrow> nat list" where
  "SPECIAL_NUMBERS len p =
     (if len = 1 then
        (case p of lucky \<Rightarrow> [7, 8, 9] | regular \<Rightarrow> [0, 1, 2, 3, 4, 5, 6] | _ \<Rightarrow> [])
      else if len = 2 then
        (case p of
           ultra_rare \<Rightarrow> [69, 42, 88, 77, 99]
         | rare \<Rightarrow> [11, 22, 33, 44, 55, 66]
         | uncommon \<Rightarrow> [12, 23, 34, 45, 56, 67, 78, 89, 21, 32, 43, 54, 65, 76, 87, 98]
         | _ \<Rightarrow> [])
      else if len = 3 then
        (case p of
           ultra_rare \<Rightarrow> [420, 666, 888, 777, 999]
         | rare \<Rightarrow> [111, 222, 333, 444, 555]
         | uncommon \<Rightarrow> [123, 234, 345, 456, 567, 678, 789, 321, 432, 543, 654, 765, 876, 987]
         | _ \<Rightarrow> [])
      else [])"

definition NUMBER_PATTERN_WEIGHTS :: "nat \<Rightarrow> (pattern \<times> rat) list" where
  "NUMBER_PATTERN_WEIGHTS len =
     (if len = 1 then [(lucky, 30 / 100), (regular, 70 / 100)]
      else if len = 2 then
        [(ultra_rare, 55 / 1000), (rare, 67 / 1000), (uncommon, 178 / 1000), (common, 70 / 100)]
      else if len = 3 then
        [(ultra_rare, 55 / 10000), (rare, 55 / 10000), (uncommon, 155 / 10000),
         (common, 9735 / 10000)]
      else [])"

section \<open>The rarity generator\<close>

text \<open>
  The source has the same loop at three places: add the weights up in order and return
  at the first entry whose cumulative weight reaches the draw. \<open>first_within\<close> is that
  loop; \<open>None\<close> is the loop ending without a return, where each caller has its fallback.
\<close>

fun first_within :: "rat \<Rightarrow> rat \<Rightarrow> ('a \<times> rat) list \<Rightarrow> 'a option" where
  "first_within rand cumulative [] = None"
| "first_within rand cumulative ((x, w) # rest) =
     (if rand \<le> cumulative + w then Some x else first_within rand (cumulative + w) rest)"

definition select_rarity_tier :: "rng \<Rightarrow> string \<times> rng" where
  "select_rarity_tier g =
     (let (rand, g') = random_random g in
      (case first_within rand 0 (map (\<lambda>(name, d). (name, weight d)) RARITY_TIERS) of
         Some tier_name \<Rightarrow> tier_name
       | None \<Rightarrow> ''COMMON'', g'))"

definition select_number_length :: "rng \<Rightarrow> nat \<times> rng" where
  "select_number_length g =
     (let (rand, g') = random_random g in
      (case first_within rand 0 LENGTH_WEIGHTS of Some len \<Rightarrow> len | None \<Rightarrow> 2, g'))"

definition special_set :: "nat \<Rightarrow> nat set" where
  "special_set len =
     set (SPECIAL_NUMBERS len ultra_rare @ SPECIAL_NUMBERS len rare @ SPECIAL_NUMBERS len uncommon)"

text \<open>
  The loop \<^verbatim>\<open>while True: num = random.randint(lo, hi); if num not in special_set: return num\<close>.
  It has no bound, so it is a partial function: \<open>None\<close> is the loop that never returns.
\<close>

partial_function (option) draw_common :: "nat \<Rightarrow> nat \<Rightarrow> nat set \<Rightarrow> rng \<Rightarrow> (nat \<times> rng) option" where
  "draw_common lo hi special g =
     (case randint lo hi g of
        (num, g') \<Rightarrow> if num \<notin> special then Some (num, g') else draw_common lo hi special g')"

text \<open>
  The branches of \<^verbatim>\<open>_generate_special_number\<close> for two and for three digits are the same
  code with other tables and bounds; \<open>generate_by_pattern\<close> is that code.
\<close>

definition generate_by_pattern :: "nat \<Rightarrow> nat \<Rightarrow> nat \<Rightarrow> rng \<Rightarrow> (nat \<times> rng) option" where
  "generate_by_pattern len lo hi g =
     (let (rand, g') = random_random g in
      case first_within rand 0 (NUMBER_PATTERN_WEIGHTS len) of
        Some pattern_type \<Rightarrow>
          if pattern_type = common then draw_common lo hi (special_set len) g'
          else Some (choice (SPECIAL_NUMBERS len pattern_type) g')
      | None \<Rightarrow> Some (randint lo hi g'))"

definition generate_special_number :: "nat \<Rightarrow> rng \<Rightarrow> (nat \<times> rng) option" where
  "generate_special_number len g =
     (if len = 1 then
        (let (rand, g') = random_random g in
         if rand \<le> the (map_of (NUMBER_PATTERN_WEIGHTS 1) lucky)
         then Some (choice (SPECIAL_NUMBERS 1 lucky) g')
         else Some (choice (SPECIAL_NUMBERS 1 regular) g'))
      else if len = 2 then generate_by_pattern 2 10 99 g
      else if len = 3 then generate_by_pattern 3 100 999 g
      else Some (randint 10 99 g))"

section \<open>Composing a code\<close>

text \<open>Decimal digits of a number, and \<^verbatim>\<open>f"{n:02d}"\<close>, \<^verbatim>\<open>f"{n:03d}"\<close> for \<open>n \<ge> 0\<close>.\<close>

fun str_of_nat :: "nat \<Rightarrow> string" where
  "str_of_nat n =
     (if n < 10 then [''0123456789'' ! n]
      else str_of_nat (n div 10) @ [''0123456789'' ! (n mod 10)])"

definition zero_padded :: "nat \<Rightarrow> nat \<Rightarrow> string" where
  "zero_padded width n =
     (let digits = str_of_nat n in replicate (width - length digits) (CHR ''0'') @ digits)"

definition format_code :: "string \<Rightarrow> string \<Rightarrow> nat \<Rightarrow> nat \<Rightarrow> string" where
  "format_code color word len number =
     color @ ''-'' @ word @ ''-'' @
       (if len = 1 then str_of_nat number
        else if len = 2 then zero_padded 2 number
        else zero_padded 3 number)"

record attempt =
  a_code :: string
  a_tier :: string
  a_color :: string
  a_word :: string

text \<open>The body of the loop of \<^verbatim>\<open>generate_referral_code\<close>, up to the composed code.\<close>

definition compose_code :: "rng \<Rightarrow> (attempt \<times> rng) option" where
  "compose_code g =
     (let (tier_name, g1) = select_rarity_tier g;
          tier = the (map_of RARITY_TIERS tier_name);
          (color, g2) = choice (colors tier) g1;
          (word, g3) = choice (words tier) g2;
          (len, g4) = select_number_length g3
      in case generate_special_number len g4 of
           None \<Rightarrow> None
         | Some (number, g5) \<Rightarrow>
             Some (\<lparr>a_code = format_code color word len number, a_tier = tier_name,
                     a_color = color, a_word = word\<rparr>, g5))"

text \<open>
  The loop \<^verbatim>\<open>for _ in range(max_attempts)\<close> and what follows it. \<open>prev\<close> holds the
  variables \<^verbatim>\<open>color\<close>, \<^verbatim>\<open>word\<close> and \<^verbatim>\<open>tier_name\<close> of the latest pass, which the
  code after the loop reads; \<open>clock\<close> is \<^verbatim>\<open>int(time.time())\<close>. The sheet is read without
  failure, so the \<^verbatim>\<open>except\<close> branch is not taken.
\<close>

fun generate_loop ::
  "nat \<Rightarrow> string list \<Rightarrow> nat \<Rightarrow> attempt \<Rightarrow> rng \<Rightarrow> ((string \<times> string) \<times> rng) option" where
  "generate_loop 0 existing_codes clock prev g =
     Some ((a_color prev @ ''-'' @ a_word prev @ ''-'' @ zero_padded 2 (clock mod 100),
            a_tier prev), g)"
| "generate_loop (Suc n) existing_codes clock prev g =
     (case compose_code g of
        None \<Rightarrow> None
      | Some (att, g') \<Rightarrow>
          if a_code att \<notin> set existing_codes then Some ((a_code att, a_tier att), g')
          else generate_loop n existing_codes clock att g')"

definition max_attempts :: nat where "max_attempts = 100"

definition generate_referral_code ::
  "service \<Rightarrow> nat \<Rightarrow> rng \<Rightarrow> ((string \<times> string) \<times> rng) option" where
  "generate_referral_code s clock g =
     generate_loop max_attempts (map referral_code (codes_sheet s)) clock
       \<lparr>a_code = [], a_tier = [], a_color = [], a_word = []\<rparr> g"

section \<open>The code ledger\<close>

text \<open>
  The dictionaries the two operations return, without the display string
  \<^verbatim>\<open>unlock_progress\<close>. \<open>None\<close> is a call that does not return, because the generator
  does not. \<open>now\<close> is the time stamp of the new row.
\<close>

record code_info =
  info_code :: string
  info_rarity :: string
  info_rolls_used :: int
  info_rolls_remaining :: int
  info_successful_referrals :: "int option"

definition active_row_of :: "service \<Rightarrow> string \<Rightarrow> code_row option" where
  "active_row_of s a = find (\<lambda>row. lower (address row) = a \<and> is_active row) (codes_sheet s)"

definition get_or_create_referral_code ::
  "service \<Rightarrow> string \<Rightarrow> nat \<Rightarrow> rng \<Rightarrow> string \<Rightarrow> (code_info \<times> service \<times> rng) option" where
  "get_or_create_referral_code s now clock g addr =
     (if \<not> enabled s then
        Some (\<lparr>info_code = ''DISABLED'', info_rarity = ''UNKNOWN'', info_rolls_used = 0,
                info_rolls_remaining = 0, info_successful_referrals = None\<rparr>, s, g)
      else
        let a = lower addr in
        case active_row_of s a of
          Some row \<Rightarrow>
            let successful_refs = count_successful_referrals s a;
                max_rolls = (if successful_refs \<ge> UNLOCK_THRESHOLD then BASE_ROLLS + BONUS_ROLLS
                             else BASE_ROLLS)
            in Some (\<lparr>info_code = referral_code row, info_rarity = rarity row,
                       info_rolls_used = rolls_used row,
                       info_rolls_remaining = max 0 (max_rolls - rolls_used row),
                       info_successful_referrals = Some successful_refs\<rparr>, s, g)
        | None \<Rightarrow>
            (case generate_referral_code s clock g of
               None \<Rightarrow> None
             | Some ((code, tier), g') \<Rightarrow>
                 Some (\<lparr>info_code = code, info_rarity = tier, info_rolls_used = 1,
                         info_rolls_remaining = BASE_ROLLS - 1,
                         info_successful_referrals = Some 0\<rparr>,
                       s\<lparr>codes_sheet := codes_sheet s @
                           [\<lparr>address = a, referral_code = code, rarity = tier, rolls_used = 1,
                             is_active = True, created_at = now\<rparr>]\<rparr>,
                       g')))"

datatype regenerate_error =
    RegenerateDisabled
  | NoReferralCodeFound
  | NoRollsRemaining int int

definition deactivate :: "string \<Rightarrow> code_row \<Rightarrow> code_row" where
  "deactivate a row =
     (if lower (address row) = a \<and> is_active row then row\<lparr>is_active := False\<rparr> else row)"

definition regenerate_referral_code ::
  "service \<Rightarrow> string \<Rightarrow> nat \<Rightarrow> rng \<Rightarrow> string
     \<Rightarrow> ((regenerate_error + code_info) \<times> service \<times> rng) option" where
  "regenerate_referral_code s now clock g addr =
     (if \<not> enabled s then Some (Inl RegenerateDisabled, s, g)
      else
        let a = lower addr;
            user_codes = filter (\<lambda>row. lower (address row) = a) (codes_sheet s) in
        if user_codes = [] then Some (Inl NoReferralCodeFound, s, g)
        else
          let current_rolls_used = Max (set (map rolls_used user_codes));
              successful_refs = count_successful_referrals s a;
              max_rolls = (if successful_refs \<ge> UNLOCK_THRESHOLD then BASE_ROLLS + BONUS_ROLLS
                           else BASE_ROLLS)
          in
          if current_rolls_used \<ge> max_rolls
          then Some (Inl (NoRollsRemaining current_rolls_used max_rolls), s, g)
          else
            let s1 = s\<lparr>codes_sheet := map (deactivate a) (codes_sheet s)\<rparr> in
            case generate_referral_code s1 clock g of
              None \<Rightarrow> None
            | Some ((new_code, new_rarity), g') \<Rightarrow>
                let new_rolls_used = current_rolls_used + 1 in
                Some (Inr \<lparr>info_code = new_code, info_rarity = new_rarity,
                            info_rolls_used = new_rolls_used,
                            info_rolls_remaining = max_rolls - new_rolls_used,
                            info_successful_referrals = Some successful_refs\<rparr>,
                      s1\<lparr>codes_sheet := codes_sheet s1 @
                           [\<lparr>address = a, referral_code = new_code, rarity = new_rarity,
                             rolls_used = new_rolls_used, is_active = True,
                             created_at = now\<rparr>]\<rparr>,
                      g'))"

section \<open>The daily snapshot\<close>

text \<open>
  \<^verbatim>\<open>snapshot_daily_balances\<close> reads balances from the chains. What the chains answer is
  an argument: for each of the four queries on Base, \<open>None\<close> when the query is not
  configured (the token address is not set, the staking contract is not available),
  otherwise a function from the address to the amount, \<open>None\<close> when the call raises;
  for Solana, \<open>None\<close> when the RPC URL or the mint is not set, otherwise the reply.
  Amounts are integers of six decimals.
\<close>

datatype solana_reply = SolanaRaises | SolanaNoValue | SolanaAmount int

record chains =
  usdx_wallet :: "(string \<Rightarrow> int option) option"
  eurx_wallet :: "(string \<Rightarrow> int option) option"
  usdx_staking :: "(string \<Rightarrow> int option) option"
  eurx_staking :: "(string \<Rightarrow> int option) option"
  solana_token_account :: "(string \<Rightarrow> solana_reply) option"

text \<open>One query inside its \<^verbatim>\<open>try\<close>: what it adds to \<^verbatim>\<open>total_balance\<close>.\<close>

definition queried :: "(string \<Rightarrow> int option) option \<Rightarrow> string \<Rightarrow> int" where
  "queried q a = (case q of None \<Rightarrow> 0 | Some f \<Rightarrow> (case f a of None \<Rightarrow> 0 | Some v \<Rightarrow> v))"

text \<open>
  The body of the loop over the addresses up to the value of \<^verbatim>\<open>usdx_balance\<close>;
  \<open>None\<close> is \<^verbatim>\<open>continue\<close>.
\<close>

definition balance_of :: "addr_lib \<Rightarrow> chains \<Rightarrow> string \<Rightarrow> rat option" where
  "balance_of L c a =
     (let addr_info = validate_address L a in
      if \<not> valid addr_info then None
      else if atype addr_info = Some Evm then
        (let checksum_addr = normalized addr_info;
             total_balance = queried (usdx_wallet c) checksum_addr
                           + queried (eurx_wallet c) checksum_addr
                           + queried (usdx_staking c) checksum_addr
                           + queried (eurx_staking c) checksum_addr
         in Some (of_int total_balance / 1000000))
      else
        (case solana_token_account c of
           None \<Rightarrow> None
         | Some f \<Rightarrow>
             (case f a of
                SolanaAmount amount \<Rightarrow> Some (of_int amount / 1000000)
              | SolanaNoValue \<Rightarrow> Some 0
              | SolanaRaises \<Rightarrow> Some 0)))"

definition snapshot_rows :: "addr_lib \<Rightarrow> chains \<Rightarrow> string \<Rightarrow> string \<Rightarrow> string list \<Rightarrow> balance_row list" where
  "snapshot_rows L c today timestamp addresses =
     concat (map (\<lambda>a. case balance_of L c a of
                         None \<Rightarrow> []
                       | Some usdx \<Rightarrow>
                           if usdx > 0
                           then [\<lparr>date = today, snapshot_address = a, usdx_balance = usdx,
                                   recorded_at = timestamp\<rparr>]
                           else [])
                 addresses)"

datatype snapshot_error = SnapshotDisabled | SnapshotExists string

record snapshot_stats =
  stats_date :: string
  addresses_checked :: nat
  balances_recorded :: nat

text \<open>\<^verbatim>\<open>list(set(...))\<close> keeps one copy of each address, in an order Python does not fix.\<close>

definition snapshot_daily_balances ::
  "addr_lib \<Rightarrow> chains \<Rightarrow> service \<Rightarrow> string \<Rightarrow> string \<Rightarrow> (snapshot_error + snapshot_stats) \<times> service" where
  "snapshot_daily_balances L c s today timestamp =
     (if \<not> enabled s then (Inl SnapshotDisabled, s)
      else if list_ex (\<lambda>row. date row = today) (daily_balances_sheet s)
      then (Inl (SnapshotExists today), s)
      else
        let unique_referred_addresses = remdups (map referred_address (referrals_sheet s));
            rows = snapshot_rows L c today timestamp unique_referred_addresses
        in (Inr \<lparr>stats_date = today,
                  addresses_checked = length unique_referred_addresses,
                  balances_recorded = length rows\<rparr>,
            if rows \<noteq> [] then s\<lparr>daily_balances_sheet := daily_balances_sheet s @ rows\<rparr> else s))"

section \<open>The leaderboard cache\<close>

text \<open>
  The table \<^verbatim>\<open>leaderboard_cache\<close>, one record per row, and the two queries of
  \<^verbatim>\<open>DatabaseService\<close> the cached endpoint makes. Both backends ask for the rows with
  \<^verbatim>\<open>total_points > 0\<close>, ordered by \<^verbatim>\<open>total_points\<close> descending, at most \<^verbatim>\<open>limit\<close> of
  them; the order among equal totals is left to the database, and is the order of the
  table here. Points are finite floats, hence rationals.
\<close>

record cache_entry =
  entry_address :: string
  stable_points :: rat
  referral_points :: rat
  entry_referee_bonus :: int
  referrals :: int
  entry_usdx_balance :: rat
  eurx_balance :: rat
  usdx_staked :: rat
  eurx_staked :: rat
  total_staked :: rat
  total_points :: rat
  last_updated :: string

definition get_leaderboard :: "cache_entry list \<Rightarrow> nat \<Rightarrow> cache_entry list" where
  "get_leaderboard db limit =
     take limit (sort_key (\<lambda>e. - total_points e) (filter (\<lambda>e. total_points e > 0) db))"

definition get_total_entries :: "cache_entry list \<Rightarrow> nat" where
  "get_total_entries db = length (filter (\<lambda>e. total_points e > 0) db)"

record cached_response =
  success :: bool
  message :: "string option"
  leaderboard :: "cache_entry list"
  total_entries :: nat
  cached :: bool

definition get_leaderboard_cached :: "cache_entry list \<Rightarrow> nat \<Rightarrow> cached_response" where
  "get_leaderboard_cached db limit =
     (let lb = get_leaderboard db limit;
          total = get_total_entries db
      in if total = 0 then
           \<lparr>success = False,
            message = Some ''Leaderboard cache is empty. Please run: python update_leaderboard_cache.py'',
            leaderboard = [], total_entries = 0, cached = False\<rparr>
         else
           \<lparr>success = True, message = None, leaderboard = lb, total_entries = total,
            cached = True\<rparr>)"

section \<open>Concrete data\<close>

text \<open>
  An address library, addresses and sheets to instantiate the statements below. The
  library accepts \<open>0x\<close> followed by forty characters as an address of Base and writes
  it in capitals, and accepts forty-four characters as a public key of Solana.
\<close>

definition sample_lib :: addr_lib where
  "sample_lib =
     \<lparr>is_address = (\<lambda>a. length a = 42 \<and> take 2 a = ''0x''),
      to_checksum_address = (\<lambda>a. ''0x'' @ upper (drop 2 a)),
      pubkey_from_string_ok = (\<lambda>a. length a = 44)\<rparr>"

definition alice :: string where "alice = ''0xaaaaaaaaaaaaaaaaaaaaaaaaaaaaaaaaaaaaaaaa''"
definition bob :: string where "bob = ''0xbbbbbbbbbbbbbbbbbbbbbbbbbbbbbbbbbbbbbbbb''"

definition sample_service :: service where
  "sample_service =
     \<lparr>enabled = True,
      codes_sheet = [\<lparr>address = alice, referral_code = ''GRAY-WAVE-57'', rarity = ''COMMON'',
                      rolls_used = 1, is_active = True, created_at = ''2025-10-01T00:00:00Z''\<rparr>],
      referrals_sheet = [],
      daily_balances_sheet = []\<rparr>"

definition referred_service :: service where
  "referred_service =
     sample_service\<lparr>referrals_sheet :=
       [\<lparr>referrer_address = PLACEHOLDER_ADDRESS, used_code = ''PUNK'',
         referred_address = ''0xAAAAAAAAAAAAAAAAAAAAAAAAAAAAAAAAAAAAAAAA'',
         swap_amount_usdc = 5, swap_timestamp = ''2025-10-02T00:00:00Z'',
         signup_bonus_paid = True, referee_bonus_paid = True,
         recorded_created_at = ''2025-10-02T00:00:00Z''\<rparr>]\<rparr>"

definition sample_entry :: "string \<Rightarrow> rat \<Rightarrow> cache_entry" where
  "sample_entry a points =
     \<lparr>entry_address = a, stable_points = points, referral_points = 0, entry_referee_bonus = 0,
      referrals = 0, entry_usdx_balance = 0, eurx_balance = 0, usdx_staked = 0,
      eurx_staked = 0, total_staked = 0, total_points = points,
      last_updated = ''2025-10-03T00:00:00''\<rparr>"

definition sample_cache :: "cache_entry list" where
  "sample_cache = [sample_entry ''0xa1'' 10, sample_entry ''0xb2'' 30, sample_entry ''0xc3'' 20]"

definition zero_cache :: "cache_entry list" where
  "zero_cache = [sample_entry ''0xa1'' 0, sample_entry ''0xb2'' 0]"

definition carol :: string where "carol = ''0xCCCCCCCCCCCCCCCCCCCCCCCCCCCCCCCCCCCCCCCC''"

definition sample_chains :: chains where
  "sample_chains =
     \<lparr>usdx_wallet = Some (\<lambda>a. if a = ''0xBBBBBBBBBBBBBBBBBBBBBBBBBBBBBBBBBBBBBBBB''
                               then Some 2500000 else None),
      eurx_wallet = None,
      usdx_staking = Some (\<lambda>a. None),
      eurx_staking = None,
      solana_token_account = None\<rparr>"

definition snapshot_service :: service where
  "snapshot_service =
     sample_service\<lparr>referrals_sheet :=
       [\<lparr>referrer_address = ''0xAAAAAAAAAAAAAAAAAAAAAAAAAAAAAAAAAAAAAAAA'',
         used_code = ''GRAY-WAVE-57'',
         referred_address = ''0xBBBBBBBBBBBBBBBBBBBBBBBBBBBBBBBBBBBBBBBB'',
         swap_amount_usdc = 150, swap_timestamp = ''2025-10-02T00:00:00Z'',
         signup_bonus_paid = True, referee_bonus_paid = True,
         recorded_created_at = ''2025-10-02T00:00:00Z''\<rparr>,
        \<lparr>referrer_address = ''0xAAAAAAAAAAAAAAAAAAAAAAAAAAAAAAAAAAAAAAAA'',
         used_code = ''GRAY-WAVE-57'',
         referred_address = carol,
         swap_amount_usdc = 200, swap_timestamp = ''2025-10-02T06:00:00Z'',
         signup_bonus_paid = True, referee_bonus_paid = True,
         recorded_created_at = ''2025-10-02T06:00:00Z''\<rparr>]\<rparr>"

text \<open>
  What a return of the loop of the common numbers means: the draw number \<open>k\<close> of
  \<^verbatim>\<open>random.randint(lo, hi)\<close> on the generator \<open>g\<close> is the first one outside the special
  set, and \<open>r\<close> is that number with the generator after it.
\<close>

definition accepted_at :: "nat \<Rightarrow> nat \<Rightarrow> nat set \<Rightarrow> rng \<Rightarrow> nat \<times> rng \<Rightarrow> nat \<Rightarrow> bool" where
  "accepted_at lo hi special g r k \<longleftrightarrow>
     (\<forall>j<k. fst (randint lo hi (sdrop j g)) \<in> special) \<and>
     fst (randint lo hi (sdrop k g)) \<notin> special \<and>
     r = randint lo hi (sdrop k g)"

text \<open>A generator: the first draw gives \<^verbatim>\<open>random.random() = 0.5\<close>, then come 59, 5 and zeros.\<close>

definition sample_rng :: rng where
  "sample_rng = 4503599627370496 ## 59 ## 5 ## sconst 0"

text \<open>
  A generator for a whole code: the tier draw 0.5 (\<open>COMMON\<close>), the first colour and the
  first word, the length draw 0.5 (two digits), then \<open>sample_rng\<close> for the number.
\<close>

definition code_rng :: rng where
  "code_rng = 4503599627370496 ## 0 ## 0 ## 4503599627370496 ## sample_rng"

section \<open>The states of the service\<close>

text \<open>
  The services that the operations produce from empty sheets. The results of the random
  module, the clock and the chains are arbitrary at every step.
\<close>

inductive reachable :: "addr_lib \<Rightarrow> service \<Rightarrow> bool" for L :: addr_lib where
  start:
    "reachable L \<lparr>enabled = e, codes_sheet = [], referrals_sheet = [],
                  daily_balances_sheet = []\<rparr>"
| get_or_create_step:
    "reachable L s \<Longrightarrow> get_or_create_referral_code s now clock g addr = Some (info, s', g')
       \<Longrightarrow> reachable L s'"
| regenerate_step:
    "reachable L s \<Longrightarrow> regenerate_referral_code s now clock g addr = Some (res, s', g')
       \<Longrightarrow> reachable L s'"
| use_step:
    "reachable L s \<Longrightarrow> use_referral_code L now s code referred amount = (ures, s')
       \<Longrightarrow> reachable L s'"
| snapshot_step:
    "reachable L s \<Longrightarrow> snapshot_daily_balances L c s today timestamp = (sres, s')
       \<Longrightarrow> reachable L s'"

definition rolls_within_limit :: "service \<Rightarrow> bool" where
  "rolls_within_limit s \<longleftrightarrow>
     (\<forall>row \<in> set (codes_sheet s). rolls_used row \<le> max_rolls_of s (address row))"

text \<open>
  Alice's three rolls, with no referral to her name: the service after her first code,
  after one regeneration and after two. The generators are \<open>code_rng\<close> with the second
  word and with the second colour.
\<close>

definition wind_rng :: rng where
  "wind_rng = 4503599627370496 ## 0 ## 1 ## 4503599627370496 ## sample_rng"

definition silver_rng :: rng where
  "silver_rng = 4503599627370496 ## 1 ## 0 ## 4503599627370496 ## sample_rng"

definition empty_service :: service where
  "empty_service =
     \<lparr>enabled = True, codes_sheet = [], referrals_sheet = [], daily_balances_sheet = []\<rparr>"

definition issued_service :: service where
  "issued_service =
     \<lparr>enabled = True,
      codes_sheet =
        [\<lparr>address = alice, referral_code = ''GRAY-WAVE-15'', rarity = ''COMMON'',
          rolls_used = 1, is_active = True, created_at = ''2025-10-01T00:00:00Z''\<rparr>],
      referrals_sheet = [],
      daily_balances_sheet = []\<rparr>"

definition rolled_service :: service where
  "rolled_service =
     \<lparr>enabled = True,
      codes_sheet =
        [\<lparr>address = alice, referral_code = ''GRAY-WAVE-15'', rarity = ''COMMON'',
          rolls_used = 1, is_active = False, created_at = ''2025-10-01T00:00:00Z''\<rparr>,
         \<lparr>address = alice, referral_code = ''GRAY-WIND-15'', rarity = ''COMMON'',
          rolls_used = 2, is_active = True, created_at = ''2025-10-01T01:00:00Z''\<rparr>],
      referrals_sheet = [],
      daily_balances_sheet = []\<rparr>"

definition spent_service :: service where
  "spent_service =
     \<lparr>enabled = True,
      codes_sheet =
        [\<lparr>address = alice, referral_code = ''GRAY-WAVE-15'', rarity = ''COMMON'',
          rolls_used = 1, is_active = False, created_at = ''2025-10-01T00:00:00Z''\<rparr>,
         \<lparr>address = alice, referral_code = ''GRAY-WIND-15'', rarity = ''COMMON'',
          rolls_used = 2, is_active = False, created_at = ''2025-10-01T01:00:00Z''\<rparr>,
         \<lparr>address = alice, referral_code = ''SILVER-WAVE-15'', rarity = ''COMMON'',
          rolls_used = 3, is_active = True, created_at = ''2025-10-01T02:00:00Z''\<rparr>],
      referrals_sheet = [],
      daily_balances_sheet = []\<rparr>"

section \<open>Evaluation\<close>

lemmas sample_defs = sample_lib_def alice_def bob_def sample_service_def referred_service_def

lemmas use_defs = use_referral_code_def record_referral_def validate_address_def
  get_address_by_code_def get_code_benefits_def check_if_referred_def truthy_def
  SPECIAL_CODES_def upper_def upper_char_def lower_def lower_char_def Let_def
  PLACEHOLDER_ADDRESS_def MIN_SWAP_AMOUNT_def SIGNUP_BONUS_def REFEREE_BONUS_def

section \<open>Properties of \<open>useCode\<close>\<close>

lemma lower_char_idem: "lower_char (lower_char c) = lower_char c"
  by (simp add: lower_char_def)

lemma lower_idem: "lower (lower a) = lower a"
  by (simp add: lower_def lower_char_idem)

lemma check_if_referred_None:
  "enabled s \<Longrightarrow> check_if_referred s a = None \<longleftrightarrow>
     (\<forall>row\<in>set (referrals_sheet s). lower (referred_address row) \<noteq> lower a)"
  by (auto simp: check_if_referred_def find_None_iff find_Some_iff split: option.splits)

lemma truthy_enabled: "truthy (get_address_by_code s code) \<Longrightarrow> enabled s"
  by (auto simp: truthy_def get_address_by_code_def split: if_splits)

text \<open>
  C1, as the code has it. When the referred address is valid and already has an event in
  the Referrals sheet, a call of \<open>useCode\<close> with that address and any code that resolves
  to an owner returns \<open>AlreadyReferred\<close> and leaves every sheet as it was, so the events
  of that address stay the ones there were.
\<close>

theorem second_use_already_referred:
  assumes "valid (validate_address L referred)"
    and "truthy (get_address_by_code s code)"
    and "\<exists>row\<in>set (referrals_sheet s).
           lower (referred_address row) = lower (normalized (validate_address L referred))"
  shows "use_referral_code L now s code referred amount = (Inl AlreadyReferred, s)"
proof -
  have "enabled s" using assms(2) by (rule truthy_enabled)
  then have "check_if_referred s (normalized (validate_address L referred)) \<noteq> None"
    using assms(3) by (simp add: check_if_referred_None)
  then show ?thesis using assms(1,2) by (simp add: use_referral_code_def Let_def)
qed

theorem second_use_already_referred_witness:
  "use_referral_code sample_lib ''2025-10-03T00:00:00Z'' referred_service ''vip'' alice 150
     = (Inl AlreadyReferred, referred_service)"
  by (rule second_use_already_referred; code_simp)

text \<open>
  C1 as stated fails for a code that resolves to no owner: the code is looked up before
  the Referrals sheet is, and the call returns \<open>UnknownCode\<close> although the address has
  an event.
\<close>

theorem unknown_code_precedes_already_referred:
  "check_if_referred referred_service (normalized (validate_address sample_lib alice)) \<noteq> None \<and>
   use_referral_code sample_lib ''2025-10-03T00:00:00Z'' referred_service ''GRAY-WIND-11'' alice 150
     = (Inl UnknownCode, referred_service)"
  by code_simp

lemma record_referral_cases:
  "(case record_referral L now s referrer referred amount code of
      (Inl e, s') \<Rightarrow> s' = s
    | (Inr r, s') \<Rightarrow>
        s' = s\<lparr>referrals_sheet := referrals_sheet s @ [last (referrals_sheet s')]\<rparr> \<and>
        used_code (last (referrals_sheet s')) = code \<and>
        swap_amount_usdc (last (referrals_sheet s')) = amount \<and>
        referred_address (last (referrals_sheet s')) = normalized (validate_address L referred))"
  by (simp add: record_referral_def Let_def)

lemma use_referral_code_cases:
  "(case use_referral_code L now s code referred amount of
      (Inl e, s') \<Rightarrow> s' = s
    | (Inr ok, s') \<Rightarrow>
        s' = s\<lparr>referrals_sheet := referrals_sheet s @ [last (referrals_sheet s')]\<rparr> \<and>
        used_code (last (referrals_sheet s')) = code \<and>
        swap_amount_usdc (last (referrals_sheet s')) = amount \<and>
        referred_address (last (referrals_sheet s'))
          = normalized (validate_address L (data_referred_address ok)))"
proof -
  let ?n = "normalized (validate_address L referred)"
  let ?o = "the (get_address_by_code s code)"
  show ?thesis
    using record_referral_cases [where L=L and now=now and s=s and referrer="?o"
        and referred="?n" and amount=amount and code=code]
    by (auto simp add: use_referral_code_def Let_def split: prod.splits sum.splits)
qed

lemma use_referral_code_failures:
  "\<not> valid (validate_address L referred) \<Longrightarrow>
     use_referral_code L now s code referred amount = (Inl InvalidAddress, s)"
  "valid (validate_address L referred) \<Longrightarrow> \<not> truthy (get_address_by_code s code) \<Longrightarrow>
     use_referral_code L now s code referred amount = (Inl UnknownCode, s)"
  "valid (validate_address L referred) \<Longrightarrow> truthy (get_address_by_code s code) \<Longrightarrow>
   check_if_referred s (normalized (validate_address L referred)) \<noteq> None \<Longrightarrow>
     use_referral_code L now s code referred amount = (Inl AlreadyReferred, s)"
  by (simp_all add: use_referral_code_def Let_def)

lemma below_minimum_fails:
  assumes "amount < of_int (min_swap (get_code_benefits s code))"
  shows "\<exists>e. use_referral_code L now s code referred amount = (Inl e, s)"
proof -
  have "\<exists>e. record_referral L now s (the (get_address_by_code s code))
      (normalized (validate_address L referred)) amount code = (Inl e, s)"
    using assms by (simp add: record_referral_def Let_def)
  then obtain e where "record_referral L now s (the (get_address_by_code s code))
      (normalized (validate_address L referred)) amount code = (Inl e, s)"
    by blast
  then show ?thesis
    by (simp add: use_referral_code_def Let_def)
qed

text \<open>
  C2. A call of \<open>useCode\<close> that fails returns the service as it was; a call that succeeds
  returns the service with one row more in the Referrals sheet, carrying the code, the
  amount and the normalized address of the call, and nothing else changed. A referred
  address that is not valid gives \<open>InvalidAddress\<close>, a code that resolves to no owner
  \<open>UnknownCode\<close>, an address with an event \<open>AlreadyReferred\<close>, in that order, and an
  amount below the minimum of the code never gives a success.
\<close>

theorem use_referral_code_atomic:
  "(case use_referral_code L now s code referred amount of
      (Inl e, s') \<Rightarrow> s' = s
    | (Inr ok, s') \<Rightarrow>
        s' = s\<lparr>referrals_sheet := referrals_sheet s @ [last (referrals_sheet s')]\<rparr> \<and>
        used_code (last (referrals_sheet s')) = code \<and>
        swap_amount_usdc (last (referrals_sheet s')) = amount \<and>
        referred_address (last (referrals_sheet s'))
          = normalized (validate_address L (data_referred_address ok)))
   \<and> (\<not> valid (validate_address L referred) \<longrightarrow>
        use_referral_code L now s code referred amount = (Inl InvalidAddress, s))
   \<and> (valid (validate_address L referred) \<and> \<not> truthy (get_address_by_code s code) \<longrightarrow>
        use_referral_code L now s code referred amount = (Inl UnknownCode, s))
   \<and> (valid (validate_address L referred) \<and> truthy (get_address_by_code s code) \<and>
       check_if_referred s (normalized (validate_address L referred)) \<noteq> None \<longrightarrow>
        use_referral_code L now s code referred amount = (Inl AlreadyReferred, s))
   \<and> (amount < of_int (min_swap (get_code_benefits s code)) \<longrightarrow>
        (\<exists>e. use_referral_code L now s code referred amount = (Inl e, s)))"
  using use_referral_code_cases [where L=L and now=now and s=s and code=code
      and referred=referred and amount=amount]
    use_referral_code_failures [where L=L and now=now and s=s and code=code
      and referred=referred and amount=amount]
    below_minimum_fails [where L=L and now=now and s=s and code=code
      and referred=referred and amount=amount]
  by blast

lemma sample_use_succeeds:
  "use_referral_code sample_lib ''2025-10-03T00:00:00Z'' sample_service ''gray-wave-57'' bob 150
     = (Inr \<lparr>data_referrer_address = alice,
              data_referred_address = ''0xBBBBBBBBBBBBBBBBBBBBBBBBBBBBBBBBBBBBBBBB'',
              data_referrer_bonus = 1000, data_referee_bonus = 1000,
              data_is_special = False, data_description = ''Standard referral code''\<rparr>,
        sample_service\<lparr>referrals_sheet :=
          [\<lparr>referrer_address = ''0xAAAAAAAAAAAAAAAAAAAAAAAAAAAAAAAAAAAAAAAA'',
            used_code = ''gray-wave-57'',
            referred_address = ''0xBBBBBBBBBBBBBBBBBBBBBBBBBBBBBBBBBBBBBBBB'',
            swap_amount_usdc = 150, swap_timestamp = ''2025-10-03T00:00:00Z'',
            signup_bonus_paid = True, referee_bonus_paid = True,
            recorded_created_at = ''2025-10-03T00:00:00Z''\<rparr>]\<rparr>)"
  by code_simp

lemma sample_service_referrals: "referrals_sheet sample_service = []"
  by (simp add: sample_service_def)

theorem use_referral_code_atomic_witness:
  "(case use_referral_code sample_lib ''2025-10-03T00:00:00Z'' sample_service ''gray-wave-57''
           bob 150 of
      (Inl e, s') \<Rightarrow> False
    | (Inr ok, s') \<Rightarrow>
        length (referrals_sheet s') = length (referrals_sheet sample_service) + 1 \<and>
        codes_sheet s' = codes_sheet sample_service \<and>
        swap_amount_usdc (last (referrals_sheet s')) = 150)"
  using use_referral_code_atomic [where L=sample_lib and now="''2025-10-03T00:00:00Z''"
      and s=sample_service and code="''gray-wave-57''" and referred=bob and amount=150]
  by (simp add: sample_use_succeeds sample_service_referrals)

text \<open>
  C3, as the code has it. When the referred address is valid, has no event in the
  Referrals sheet, and equals the resolved owner of the code without regard to case,
  \<open>useCode\<close> returns \<open>SelfReferral\<close> for every amount and writes nothing. A special code
  resolves to the sentinel, and then the call never returns \<open>SelfReferral\<close> for an
  address whose normal form is not the sentinel in small letters.
\<close>

theorem self_referral_rejected:
  "(valid (validate_address L referred) \<and>
    truthy (get_address_by_code s code) \<and>
    check_if_referred s (normalized (validate_address L referred)) = None \<and>
    lower (the (get_address_by_code s code)) = lower (normalized (validate_address L referred))
    \<longrightarrow> use_referral_code L now s code referred amount = (Inl SelfReferral, s))
   \<and> (map_of SPECIAL_CODES (upper code) \<noteq> None \<and>
       lower (normalized (validate_address L referred)) \<noteq> ''special_code''
    \<longrightarrow> fst (use_referral_code L now s code referred amount) \<noteq> Inl SelfReferral)"
proof (intro conjI impI)
  assume "valid (validate_address L referred) \<and>
    truthy (get_address_by_code s code) \<and>
    check_if_referred s (normalized (validate_address L referred)) = None \<and>
    lower (the (get_address_by_code s code)) = lower (normalized (validate_address L referred))"
  then show "use_referral_code L now s code referred amount = (Inl SelfReferral, s)"
    by (simp add: use_referral_code_def Let_def)
next
  assume a: "map_of SPECIAL_CODES (upper code) \<noteq> None \<and>
       lower (normalized (validate_address L referred)) \<noteq> ''special_code''"
  have "lower ''SPECIAL_CODE'' = ''special_code''"
    by (simp add: lower_def lower_char_def)
  moreover have "get_address_by_code s code = None
      \<or> get_address_by_code s code = Some ''SPECIAL_CODE''"
    using a by (simp add: get_address_by_code_def)
  ultimately show "fst (use_referral_code L now s code referred amount) \<noteq> Inl SelfReferral"
    using a
    by (auto simp add: use_referral_code_def Let_def truthy_def split: prod.splits sum.splits)
qed

lemma sample_self_referral:
  "valid (validate_address sample_lib alice) \<and>
   truthy (get_address_by_code sample_service ''GRAY-WAVE-57'') \<and>
   check_if_referred sample_service (normalized (validate_address sample_lib alice)) = None \<and>
   lower (the (get_address_by_code sample_service ''GRAY-WAVE-57''))
     = lower (normalized (validate_address sample_lib alice))"
  by code_simp

theorem self_referral_rejected_witness:
  "use_referral_code sample_lib ''2025-10-03T00:00:00Z'' sample_service ''GRAY-WAVE-57'' alice 150
     = (Inl SelfReferral, sample_service)"
  using self_referral_rejected [where L=sample_lib and s=sample_service
      and code="''GRAY-WAVE-57''" and referred=alice and amount=150
      and now="''2025-10-03T00:00:00Z''"] sample_self_referral
  by blast

text \<open>
  C3 as stated fails for an owner that has itself been referred before: the Referrals
  sheet is consulted before the owner is compared, and the call returns
  \<open>AlreadyReferred\<close>.
\<close>

theorem already_referred_precedes_self_referral:
  "get_address_by_code referred_service ''GRAY-WAVE-57'' = Some alice \<and>
   lower alice = lower (normalized (validate_address sample_lib alice)) \<and>
   use_referral_code sample_lib ''2025-10-03T00:00:00Z'' referred_service ''GRAY-WAVE-57''
       alice 150
     = (Inl AlreadyReferred, referred_service)"
  by code_simp

lemma record_referral_minimum:
  assumes "fst (record_referral L now s referrer referred amount code)
     \<notin> {Inl ServiceDisabled, Inl InvalidReferralCode, Inl InvalidReferrerAddress,
         Inl InvalidReferredAddress, Inl AddressAlreadyReferred}"
  shows "if amount < of_int (min_swap (get_code_benefits s code))
     then fst (record_referral L now s referrer referred amount code)
            = Inl (SwapBelowMinimum (min_swap (get_code_benefits s code)))
     else \<exists>r. fst (record_referral L now s referrer referred amount code) = Inr r \<and>
            referee_bonus r = REFEREE_BONUS + bonus_points (get_code_benefits s code)"
  using assms by (auto simp add: record_referral_def Let_def split: if_splits)

lemma get_code_benefits_special:
  "map_of SPECIAL_CODES (upper code) = Some b \<Longrightarrow>
     min_swap (get_code_benefits s code) = sc_min_swap b \<and>
     bonus_points (get_code_benefits s code) = sc_bonus_points b"
  by (simp add: get_code_benefits_def)

lemma get_code_benefits_ordinary:
  "map_of SPECIAL_CODES (upper code) = None \<Longrightarrow>
     min_swap (get_code_benefits s code) = 100 \<and> bonus_points (get_code_benefits s code) = 0"
  by (simp add: get_code_benefits_def Let_def MIN_SWAP_AMOUNT_def)

text \<open>
  C7. When no check before the minimum fails, \<open>useCode\<close> fails with the minimum of the
  code exactly when the amount is strictly below it, and succeeds otherwise, with the
  referee's bonus raised by the bonus points of the code. The minimum and the bonus
  points are the configured ones for a special code, and 100 and 0 for every other code.
\<close>

theorem minimum_swap_is_strict:
  "(fst (use_referral_code L now s code referred amount)
      \<notin> {Inl InvalidAddress, Inl UnknownCode, Inl AlreadyReferred, Inl SelfReferral,
          Inl (RecordFailed ServiceDisabled), Inl (RecordFailed InvalidReferralCode),
          Inl (RecordFailed InvalidReferrerAddress), Inl (RecordFailed InvalidReferredAddress),
          Inl (RecordFailed AddressAlreadyReferred)}
    \<longrightarrow> (if amount < of_int (min_swap (get_code_benefits s code))
         then fst (use_referral_code L now s code referred amount)
                = Inl (RecordFailed (SwapBelowMinimum (min_swap (get_code_benefits s code))))
         else \<exists>ok. fst (use_referral_code L now s code referred amount) = Inr ok \<and>
                data_referee_bonus ok
                  = REFEREE_BONUS + bonus_points (get_code_benefits s code)))
   \<and> (\<forall>b. map_of SPECIAL_CODES (upper code) = Some b \<longrightarrow>
          min_swap (get_code_benefits s code) = sc_min_swap b \<and>
          bonus_points (get_code_benefits s code) = sc_bonus_points b)
   \<and> (map_of SPECIAL_CODES (upper code) = None \<longrightarrow>
          min_swap (get_code_benefits s code) = 100 \<and>
          bonus_points (get_code_benefits s code) = 0)"
proof (intro conjI impI allI)
  let ?r = "record_referral L now s (the (get_address_by_code s code))
              (normalized (validate_address L referred)) amount code"
  assume a: "fst (use_referral_code L now s code referred amount)
      \<notin> {Inl InvalidAddress, Inl UnknownCode, Inl AlreadyReferred, Inl SelfReferral,
          Inl (RecordFailed ServiceDisabled), Inl (RecordFailed InvalidReferralCode),
          Inl (RecordFailed InvalidReferrerAddress), Inl (RecordFailed InvalidReferredAddress),
          Inl (RecordFailed AddressAlreadyReferred)}"
  then have u: "fst (use_referral_code L now s code referred amount)
      = (case fst ?r of Inl e \<Rightarrow> Inl (RecordFailed e)
         | Inr r \<Rightarrow> Inr \<lparr>data_referrer_address = the (get_address_by_code s code),
                      data_referred_address = normalized (validate_address L referred),
                      data_referrer_bonus = referrer_bonus r,
                      data_referee_bonus = referee_bonus r,
                      data_is_special = ok_is_special r,
                      data_description = ok_description r\<rparr>)"
    by (auto simp add: use_referral_code_def Let_def split: if_splits prod.splits sum.splits)
  with a have "fst ?r \<notin> {Inl ServiceDisabled, Inl InvalidReferralCode, Inl InvalidReferrerAddress,
         Inl InvalidReferredAddress, Inl AddressAlreadyReferred}"
    by (auto split: sum.splits)
  from record_referral_minimum [OF this] u
  show "if amount < of_int (min_swap (get_code_benefits s code))
         then fst (use_referral_code L now s code referred amount)
                = Inl (RecordFailed (SwapBelowMinimum (min_swap (get_code_benefits s code))))
         else \<exists>ok. fst (use_referral_code L now s code referred amount) = Inr ok \<and>
                data_referee_bonus ok
                  = REFEREE_BONUS + bonus_points (get_code_benefits s code)"
    by (auto split: if_splits)
qed (simp_all add: get_code_benefits_special get_code_benefits_ordinary)

lemma sample_punk_below:
  "fst (use_referral_code sample_lib ''2025-10-03T00:00:00Z'' sample_service ''PUNK'' bob
          (499 / 100)) = Inl (RecordFailed (SwapBelowMinimum 5))"
  by code_simp

lemma sample_punk_minimum: "min_swap (get_code_benefits sample_service ''PUNK'') = 5"
  by code_simp

theorem minimum_swap_is_strict_witness:
  "fst (use_referral_code sample_lib ''2025-10-03T00:00:00Z'' sample_service ''PUNK'' bob
          (499 / 100)) = Inl (RecordFailed (SwapBelowMinimum 5)) \<and>
   (499 / 100 :: rat) < of_int (min_swap (get_code_benefits sample_service ''PUNK''))"
  using minimum_swap_is_strict [where L=sample_lib and now="''2025-10-03T00:00:00Z''"
      and s=sample_service and code="''PUNK''" and referred=bob and amount="499 / 100"]
  by (simp add: sample_punk_below sample_punk_minimum)

lemma sample_punk_at_minimum:
  "fst (use_referral_code sample_lib ''2025-10-03T00:00:00Z'' sample_service ''PUNK'' bob 5)
     = Inr \<lparr>data_referrer_address = ''SPECIAL_CODE'',
            data_referred_address = ''0xBBBBBBBBBBBBBBBBBBBBBBBBBBBBBBBBBBBBBBBB'',
            data_referrer_bonus = 0, data_referee_bonus = 1500, data_is_special = True,
            data_description = ''Solana Cypherpunk Hackathon code''\<rparr>"
  by code_simp

section \<open>The leaderboard cache\<close>

lemma sorted_desc_take:
  "sorted (map f xs) \<Longrightarrow> sorted (map f (take n xs))"
  using sorted_wrt_take [of "(\<le>)" "map f xs" n] by (simp add: take_map)

lemma get_leaderboard_sorted:
  "sorted (map (\<lambda>e. - total_points e) (get_leaderboard db limit))"
  unfolding get_leaderboard_def by (rule sorted_desc_take) (rule sorted_sort_key)

lemma get_leaderboard_top:
  assumes "i < length (get_leaderboard db limit)"
    and "e \<in> set db" and "total_points e > 0" and "e \<notin> set (get_leaderboard db limit)"
  shows "total_points e \<le> total_points (get_leaderboard db limit ! i)"
proof -
  let ?xs = "sort_key (\<lambda>e. - total_points e) (filter (\<lambda>e. total_points e > 0) db)"
  have e: "e \<in> set ?xs" using assms(2,3) by simp
  then obtain j where j: "j < length ?xs" "?xs ! j = e"
    unfolding in_set_conv_nth by blast
  have il: "i < limit" "i < length ?xs"
    using assms(1) by (simp_all add: get_leaderboard_def)
  have "\<not> j < limit"
  proof
    assume "j < limit"
    then have "take limit ?xs ! j = e" "j < length (take limit ?xs)"
      using j by simp_all
    then have "e \<in> set (take limit ?xs)"
      unfolding in_set_conv_nth by blast
    then show False using assms(4) by (simp add: get_leaderboard_def)
  qed
  then have "i \<le> j" using il by simp
  have srt: "sorted (map (\<lambda>e. - total_points e) ?xs)" by (rule sorted_sort_key)
  have jl: "j < length (map (\<lambda>e. - total_points e) ?xs)" using j(1) by simp
  from srt \<open>i \<le> j\<close> jl
  have "map (\<lambda>e. - total_points e) ?xs ! i \<le> map (\<lambda>e. - total_points e) ?xs ! j"
    by (rule sorted_nth_mono)
  then have "total_points (?xs ! j) \<le> total_points (?xs ! i)"
    using il j by simp
  then show ?thesis using il j by (simp add: get_leaderboard_def)
qed

lemma get_leaderboard_descending:
  "sorted_wrt (\<lambda>a b. total_points a \<ge> total_points b) (get_leaderboard db limit)"
  using get_leaderboard_sorted [of db limit] by (simp add: sorted_map)

lemma get_leaderboard_subset:
  "set (get_leaderboard db limit) \<subseteq> {e \<in> set db. total_points e > 0}"
  unfolding get_leaderboard_def using set_take_subset [of limit] by fastforce

lemma get_leaderboard_length:
  "length (get_leaderboard db limit) = min limit (get_total_entries db)"
  by (simp add: get_leaderboard_def get_total_entries_def min.commute)

lemma get_total_entries_zero:
  "get_total_entries db = 0 \<longleftrightarrow> \<not> (\<exists>e \<in> set db. total_points e > 0)"
  by (auto simp add: get_total_entries_def filter_empty_conv)

lemma cached_response_cases:
  "get_leaderboard_cached db limit =
     (if \<exists>e \<in> set db. total_points e > 0
      then \<lparr>success = True, message = None, leaderboard = get_leaderboard db limit,
            total_entries = get_total_entries db, cached = True\<rparr>
      else \<lparr>success = False,
            message = Some ''Leaderboard cache is empty. Please run: python update_leaderboard_cache.py'',
            leaderboard = [], total_entries = 0, cached = False\<rparr>)"
  using get_total_entries_zero [of db] by (simp add: get_leaderboard_cached_def Let_def)

text \<open>
  C9, as the code has it. The cached read counts the entries with positive points. When
  there is none, which includes the cache without entries, it returns the response with
  \<^verbatim>\<open>success\<close> false and a message, not a bare empty list. Otherwise \<^verbatim>\<open>success\<close> is true
  and the response carries the entries of positive points in descending order of
  \<^verbatim>\<open>total_points\<close>, cut at \<open>limit\<close>: no entry left out has more points than one
  returned, and the list is not empty for a positive limit. So that response differs
  from every successful one; it does not tell a cache without entries from a cache whose
  entries have no points.
\<close>

theorem cached_read_top_n_or_sentinel:
  "(let r = get_leaderboard_cached db limit in
     (\<not> (\<exists>e \<in> set db. total_points e > 0) \<longrightarrow>
        r = \<lparr>success = False,
             message = Some ''Leaderboard cache is empty. Please run: python update_leaderboard_cache.py'',
             leaderboard = [], total_entries = 0, cached = False\<rparr>) \<and>
     (success r \<longleftrightarrow> (\<exists>e \<in> set db. total_points e > 0)) \<and>
     (success r \<longrightarrow> message r = None \<and> leaderboard r = get_leaderboard db limit \<and>
        total_entries r = get_total_entries db \<and> (0 < limit \<longrightarrow> leaderboard r \<noteq> [])) \<and>
     sorted_wrt (\<lambda>a b. total_points a \<ge> total_points b) (leaderboard r) \<and>
     length (leaderboard r) = (if success r then min limit (get_total_entries db) else 0) \<and>
     set (leaderboard r) \<subseteq> {e \<in> set db. total_points e > 0} \<and>
     (\<forall>i e. i < length (leaderboard r) \<and> e \<in> set db \<and> total_points e > 0 \<and>
            e \<notin> set (leaderboard r) \<and> success r
        \<longrightarrow> total_points e \<le> total_points (leaderboard r ! i)))"
proof (cases "\<exists>e \<in> set db. total_points e > 0")
  case False
  then have "get_leaderboard_cached db limit =
      \<lparr>success = False,
       message = Some ''Leaderboard cache is empty. Please run: python update_leaderboard_cache.py'',
       leaderboard = [], total_entries = 0, cached = False\<rparr>"
    by (simp only: cached_response_cases if_False)
  then show ?thesis unfolding Let_def using False by simp
next
  case True
  then have r: "get_leaderboard_cached db limit =
      \<lparr>success = True, message = None, leaderboard = get_leaderboard db limit,
       total_entries = get_total_entries db, cached = True\<rparr>"
    by (simp only: cached_response_cases if_True)
  have nz: "get_total_entries db \<noteq> 0"
    using True get_total_entries_zero [of db] by simp
  have ne: "0 < limit \<longrightarrow> get_leaderboard db limit \<noteq> []"
  proof
    assume "0 < limit"
    then have "0 < length (get_leaderboard db limit)"
      using nz by (simp add: get_leaderboard_length)
    then show "get_leaderboard db limit \<noteq> []" by simp
  qed
  have top: "\<forall>i e. i < length (get_leaderboard db limit) \<and> e \<in> set db \<and> total_points e > 0 \<and>
            e \<notin> set (get_leaderboard db limit) \<and> True
        \<longrightarrow> total_points e \<le> total_points (get_leaderboard db limit ! i)"
    using get_leaderboard_top [of _ db limit] by blast
  show ?thesis
    unfolding Let_def r
    using True ne top get_leaderboard_descending [of db limit] get_leaderboard_subset [of db limit]
      get_leaderboard_length [of db limit]
    by simp
qed

lemma sample_cache_read:
  "map entry_address (leaderboard (get_leaderboard_cached sample_cache 2)) = [''0xb2'', ''0xc3'']"
  by code_simp

lemma sample_cache_success: "success (get_leaderboard_cached sample_cache 2)"
  by code_simp

theorem cached_read_top_n_or_sentinel_witness:
  "success (get_leaderboard_cached sample_cache 2) \<and>
   map entry_address (leaderboard (get_leaderboard_cached sample_cache 2)) = [''0xb2'', ''0xc3''] \<and>
   leaderboard (get_leaderboard_cached sample_cache 2) = get_leaderboard sample_cache 2 \<and>
   \<not> success (get_leaderboard_cached [] 2) \<and>
   get_leaderboard_cached [] 2 \<noteq> get_leaderboard_cached sample_cache 2"
proof -
  have a: "leaderboard (get_leaderboard_cached sample_cache 2) = get_leaderboard sample_cache 2"
    using cached_read_top_n_or_sentinel [of sample_cache 2] sample_cache_success
    unfolding Let_def by blast
  have b: "\<not> success (get_leaderboard_cached [] 2)"
    using cached_read_top_n_or_sentinel [of "[]" 2] unfolding Let_def by simp
  have c: "get_leaderboard_cached [] 2 \<noteq> get_leaderboard_cached sample_cache 2"
    using b sample_cache_success by metis
  from a b c sample_cache_read sample_cache_success show ?thesis by blast
qed

text \<open>
  C9 as stated fails for a cache that has entries, none with points: its leaderboard is
  empty by right, and the response is the one of the cache without entries.
\<close>

theorem sentinel_for_cache_without_points:
  "zero_cache \<noteq> [] \<and> get_leaderboard zero_cache 5 = [] \<and>
   get_leaderboard_cached zero_cache 5 = get_leaderboard_cached [] 5"
  by (simp add: zero_cache_def sample_entry_def get_leaderboard_def get_leaderboard_cached_def
        get_total_entries_def)

section \<open>The daily snapshot\<close>

lemma snapshot_rows_member:
  assumes "row \<in> set (snapshot_rows L c today timestamp addresses)"
  shows "snapshot_address row \<in> set addresses \<and>
         balance_of L c (snapshot_address row) = Some (usdx_balance row) \<and>
         usdx_balance row > 0 \<and> date row = today"
  using assms by (auto simp add: snapshot_rows_def split: option.splits if_splits)

lemma snapshot_appends:
  "daily_balances_sheet (snd (snapshot_daily_balances L c s today timestamp))
     = daily_balances_sheet s
       @ drop (length (daily_balances_sheet s))
           (daily_balances_sheet (snd (snapshot_daily_balances L c s today timestamp)))"
  by (simp add: snapshot_daily_balances_def Let_def)

lemma snapshot_new_rows:
  assumes "row \<in> set (drop (length (daily_balances_sheet s))
             (daily_balances_sheet (snd (snapshot_daily_balances L c s today timestamp))))"
  shows "row \<in> set (snapshot_rows L c today timestamp
                      (remdups (map referred_address (referrals_sheet s))))"
  using assms by (auto simp add: snapshot_daily_balances_def Let_def split: if_splits)

lemma balance_of_all_queries_fail:
  assumes "is_address L a"
    and "queried (usdx_wallet c) (to_checksum_address L a) = 0"
    and "queried (eurx_wallet c) (to_checksum_address L a) = 0"
    and "queried (usdx_staking c) (to_checksum_address L a) = 0"
    and "queried (eurx_staking c) (to_checksum_address L a) = 0"
  shows "balance_of L c a = Some 0"
  using assms by (simp add: balance_of_def validate_address_def Let_def)

lemma balance_of_solana_fails:
  assumes "\<not> is_address L a" and "pubkey_from_string_ok L a"
    and "solana_token_account c = Some f" and "f a = SolanaRaises \<or> f a = SolanaNoValue"
  shows "balance_of L c a = Some 0"
  using assms by (auto simp add: balance_of_def validate_address_def Let_def)

text \<open>
  C10. What the snapshot adds to the DailyBalances sheet comes after the rows that were
  there, and every added row has a balance above zero, which is the balance the chains
  answered for its address on that day. An address whose balance is zero, or not known
  because the address was skipped, gets no row; a query that raises adds nothing to the
  balance, so an address all of whose queries raise has the balance zero and gets no row.
\<close>

theorem snapshot_rows_positive:
  "(let s' = snd (snapshot_daily_balances L c s today timestamp);
        new = drop (length (daily_balances_sheet s)) (daily_balances_sheet s')
    in daily_balances_sheet s' = daily_balances_sheet s @ new \<and>
       (\<forall>row \<in> set new.
          usdx_balance row > 0 \<and> date row = today \<and>
          balance_of L c (snapshot_address row) = Some (usdx_balance row)) \<and>
       (\<forall>a. balance_of L c a = None \<or> balance_of L c a = Some 0
            \<longrightarrow> a \<notin> snapshot_address ` set new))"
proof -
  let ?s' = "snd (snapshot_daily_balances L c s today timestamp)"
  let ?new = "drop (length (daily_balances_sheet s)) (daily_balances_sheet ?s')"
  have rows: "usdx_balance row > 0 \<and> date row = today \<and>
      balance_of L c (snapshot_address row) = Some (usdx_balance row)"
    if "row \<in> set ?new" for row
    using snapshot_rows_member [OF snapshot_new_rows [OF that]] by simp
  have "a \<notin> snapshot_address ` set ?new"
    if "balance_of L c a = None \<or> balance_of L c a = Some 0" for a
  proof
    assume "a \<in> snapshot_address ` set ?new"
    then obtain row where "row \<in> set ?new" "snapshot_address row = a" by auto
    with rows [of row] that show False by auto
  qed
  with rows snapshot_appends [of L c s today timestamp] show ?thesis
    unfolding Let_def by blast
qed

lemma sample_snapshot:
  "daily_balances_sheet
     (snd (snapshot_daily_balances sample_lib sample_chains snapshot_service ''2025-10-03''
             ''2025-10-03T00:00:00Z''))
     = [\<lparr>date = ''2025-10-03'',
          snapshot_address = ''0xBBBBBBBBBBBBBBBBBBBBBBBBBBBBBBBBBBBBBBBB'',
          usdx_balance = 5 / 2, recorded_at = ''2025-10-03T00:00:00Z''\<rparr>]"
  by code_simp

lemma sample_snapshot_before: "daily_balances_sheet snapshot_service = []"
  by code_simp

lemma sample_carol_balance: "balance_of sample_lib sample_chains carol = Some 0"
  by code_simp

lemma sample_carol_referred:
  "carol \<in> set (map referred_address (referrals_sheet snapshot_service))"
  by code_simp

theorem snapshot_rows_positive_witness:
  "balance_of sample_lib sample_chains carol = Some 0 \<and>
   carol \<in> set (map referred_address (referrals_sheet snapshot_service)) \<and>
   carol \<notin> snapshot_address ` set (daily_balances_sheet
     (snd (snapshot_daily_balances sample_lib sample_chains snapshot_service ''2025-10-03''
             ''2025-10-03T00:00:00Z''))) \<and>
   balance_of sample_lib sample_chains ''0xBBBBBBBBBBBBBBBBBBBBBBBBBBBBBBBBBBBBBBBB''
     = Some (5 / 2)"
  using snapshot_rows_positive [where L=sample_lib and c=sample_chains and s=snapshot_service
      and today="''2025-10-03''" and timestamp="''2025-10-03T00:00:00Z''"]
    sample_carol_balance sample_carol_referred
  by (simp add: Let_def sample_snapshot sample_snapshot_before)

section \<open>The common numbers\<close>

lemma randint_sdrop:
  "randint lo hi (sdrop k g) = (lo + (g !! k) mod (hi - lo + 1), sdrop (Suc k) g)"
  by (simp add: randint_def)

lemma draw_common_accept:
  "fst (randint lo hi g) \<notin> special \<Longrightarrow> draw_common lo hi special g = Some (randint lo hi g)"
  by (subst draw_common.simps) (simp add: randint_def)

lemma draw_common_reject:
  "fst (randint lo hi g) \<in> special \<Longrightarrow>
     draw_common lo hi special g = draw_common lo hi special (stl g)"
  by (subst draw_common.simps) (simp add: randint_def)

lemma accepted_at_0:
  "fst (randint lo hi g) \<notin> special \<Longrightarrow> accepted_at lo hi special g (randint lo hi g) 0"
  by (simp add: accepted_at_def)

lemma accepted_at_Suc:
  "accepted_at lo hi special g r (Suc k) \<longleftrightarrow>
     fst (randint lo hi g) \<in> special \<and> accepted_at lo hi special (stl g) r k"
proof -
  have "(\<forall>j<Suc k. fst (randint lo hi (sdrop j g)) \<in> special) \<longleftrightarrow>
        fst (randint lo hi g) \<in> special \<and>
        (\<forall>j<k. fst (randint lo hi (sdrop j (stl g))) \<in> special)"
    by (simp add: All_less_Suc2)
  then show ?thesis unfolding accepted_at_def by simp
qed

lemma draw_common_first_accepted:
  "accepted_at lo hi special g r k \<Longrightarrow> draw_common lo hi special g = Some r"
proof (induction k arbitrary: g)
  case 0
  then show ?case by (simp add: accepted_at_def draw_common_accept)
next
  case (Suc k)
  then have "fst (randint lo hi g) \<in> special" "accepted_at lo hi special (stl g) r k"
    by (simp_all add: accepted_at_Suc)
  then show ?case using Suc.IH [of "stl g"] by (simp add: draw_common_reject)
qed

lemma draw_common_step:
  assumes "(case randint lo hi g of
      (num, g') \<Rightarrow> if num \<notin> special then Some (num, g') else f lo hi special g') = Some r"
    and "\<And>hi special g b y. f hi special g b = Some y \<Longrightarrow> \<exists>k. accepted_at hi special g b y k"
  shows "\<exists>k. accepted_at lo hi special g r k"
proof (cases "fst (randint lo hi g) \<in> special")
  case False
  with assms(1) have "r = randint lo hi g"
    by (simp add: randint_def)
  with False accepted_at_0 [of lo hi g special] show ?thesis by blast
next
  case True
  with assms(1) have "f lo hi special (stl g) = Some r" by (simp add: randint_def)
  then obtain k where "accepted_at lo hi special (stl g) r k" using assms(2) by blast
  with True have "accepted_at lo hi special g r (Suc k)" by (simp add: accepted_at_Suc)
  then show ?thesis ..
qed

lemma draw_common_returns:
  "draw_common lo hi special g = Some r \<Longrightarrow> \<exists>k. accepted_at lo hi special g r k"
  by (rule draw_common.raw_induct
        [where P = "\<lambda>lo hi special g r. \<exists>k. accepted_at lo hi special g r k"])
     (rule draw_common_step)

lemma draw_common_never:
  assumes "\<forall>k. fst (randint lo hi (sdrop k g)) \<in> special"
  shows "draw_common lo hi special g = None"
proof (cases "draw_common lo hi special g")
  case (Some r)
  then obtain k where "accepted_at lo hi special g r k"
    using draw_common_returns by blast
  then show ?thesis using assms by (simp add: accepted_at_def)
qed simp

lemma randint_range: "lo \<le> hi \<Longrightarrow> lo \<le> fst (randint lo hi g) \<and> fst (randint lo hi g) \<le> hi"
proof -
  assume "lo \<le> hi"
  have "shd g mod (hi - lo + 1) < hi - lo + 1" by simp
  then have "shd g mod (hi - lo + 1) \<le> hi - lo" by linarith
  then have "lo + shd g mod (hi - lo + 1) \<le> hi" using \<open>lo \<le> hi\<close> by linarith
  then show ?thesis by (simp add: randint_def del: mod_less_divisor)
qed

lemma common_selected_2:
  "first_within rand 0 (NUMBER_PATTERN_WEIGHTS 2) = Some common \<longleftrightarrow> 3 / 10 < rand \<and> rand \<le> 1"
  by (auto simp add: NUMBER_PATTERN_WEIGHTS_def)

lemma common_selected_3:
  "first_within rand 0 (NUMBER_PATTERN_WEIGHTS 3) = Some common
     \<longleftrightarrow> 265 / 10000 < rand \<and> rand \<le> 1"
  by (auto simp add: NUMBER_PATTERN_WEIGHTS_def)

lemma generate_common:
  assumes "len = 2 \<and> lo = 10 \<and> hi = 99 \<or> len = 3 \<and> lo = 100 \<and> hi = 999"
    and "first_within (fst (random_random g)) 0 (NUMBER_PATTERN_WEIGHTS len) = Some common"
  shows "generate_special_number len g = draw_common lo hi (special_set len) (stl g)"
  using assms
  by (auto simp add: generate_special_number_def generate_by_pattern_def random_random_def
        split: prod.splits)

text \<open>
  C8. For two and for three digits, when the draw of the pattern class selects
  \<open>common\<close>, \<^verbatim>\<open>_generate_special_number\<close> is the loop that draws
  \<^verbatim>\<open>random.randint\<close> over the full range of that length (10 to 99, 100 to 999) until a
  draw lies outside the ultra rare, rare and uncommon lists. It returns the first such
  draw, which is therefore in the range and in none of the lists; it returns as soon as
  some draw is accepted, and does not return when none ever is.
\<close>

theorem common_number_by_rejection:
  assumes "len = 2 \<and> lo = 10 \<and> hi = 99 \<or> len = 3 \<and> lo = 100 \<and> hi = 999"
    and "first_within (fst (random_random g)) 0 (NUMBER_PATTERN_WEIGHTS len) = Some common"
  shows "generate_special_number len g = draw_common lo hi (special_set len) (stl g) \<and>
    (\<forall>r. generate_special_number len g = Some r \<longrightarrow>
       (\<exists>k. accepted_at lo hi (special_set len) (stl g) r k) \<and>
       fst r \<notin> set (SPECIAL_NUMBERS len ultra_rare) \<and>
       fst r \<notin> set (SPECIAL_NUMBERS len rare) \<and>
       fst r \<notin> set (SPECIAL_NUMBERS len uncommon) \<and>
       lo \<le> fst r \<and> fst r \<le> hi) \<and>
    (\<forall>r k. accepted_at lo hi (special_set len) (stl g) r k \<longrightarrow>
       generate_special_number len g = Some r) \<and>
    ((\<forall>k. fst (randint lo hi (sdrop k (stl g))) \<in> special_set len) \<longrightarrow>
       generate_special_number len g = None)"
proof -
  have eq: "generate_special_number len g = draw_common lo hi (special_set len) (stl g)"
    using assms by (rule generate_common)
  have le: "lo \<le> hi" using assms(1) by auto
  have ret: "(\<exists>k. accepted_at lo hi (special_set len) (stl g) r k) \<and>
       fst r \<notin> set (SPECIAL_NUMBERS len ultra_rare) \<and>
       fst r \<notin> set (SPECIAL_NUMBERS len rare) \<and>
       fst r \<notin> set (SPECIAL_NUMBERS len uncommon) \<and>
       lo \<le> fst r \<and> fst r \<le> hi"
    if "generate_special_number len g = Some r" for r
  proof -
    from that eq have "draw_common lo hi (special_set len) (stl g) = Some r" by simp
    then obtain k where k: "accepted_at lo hi (special_set len) (stl g) r k"
      using draw_common_returns by blast
    then have "fst r \<notin> special_set len" and r: "r = randint lo hi (sdrop k (stl g))"
      by (simp_all add: accepted_at_def)
    then have "fst r \<notin> set (SPECIAL_NUMBERS len ultra_rare) \<and>
       fst r \<notin> set (SPECIAL_NUMBERS len rare) \<and>
       fst r \<notin> set (SPECIAL_NUMBERS len uncommon)"
      by (simp add: special_set_def)
    moreover have "lo \<le> fst r \<and> fst r \<le> hi"
      unfolding r using le by (rule randint_range)
    ultimately show ?thesis using k by blast
  qed
  have acc: "generate_special_number len g = Some r"
    if "accepted_at lo hi (special_set len) (stl g) r k" for r k
    using draw_common_first_accepted [OF that] eq by simp
  have nev: "generate_special_number len g = None"
    if "\<forall>k. fst (randint lo hi (sdrop k (stl g))) \<in> special_set len"
    using draw_common_never [OF that] eq by simp
  from eq ret acc nev show ?thesis by blast
qed

lemma sample_rng_common:
  "first_within (fst (random_random sample_rng)) 0 (NUMBER_PATTERN_WEIGHTS 2) = Some common"
  by (simp add: common_selected_2 random_random_def sample_rng_def)

lemma sample_rng_accepted:
  "accepted_at 10 99 (special_set 2) (stl sample_rng) (15, sconst 0) 1"
  by (simp add: accepted_at_def randint_def sample_rng_def special_set_def SPECIAL_NUMBERS_def)

theorem common_number_by_rejection_witness:
  "generate_special_number 2 sample_rng = Some (15, sconst 0)"
  using common_number_by_rejection [where len=2 and lo=10 and hi=99 and g=sample_rng]
    sample_rng_common sample_rng_accepted
  by blast

section \<open>The code ledger\<close>

lemma find_append_None:
  "find P xs = None \<Longrightarrow> find P (xs @ ys) = find P ys"
  by (induction xs) (auto split: if_splits)

lemma get_or_create_existing:
  assumes "enabled s" and "active_row_of s (lower addr) = Some row"
  shows "get_or_create_referral_code s now clock g addr =
     Some (\<lparr>info_code = referral_code row, info_rarity = rarity row,
             info_rolls_used = rolls_used row,
             info_rolls_remaining = max 0 (max_rolls_of s (lower addr) - rolls_used row),
             info_successful_referrals = Some (count_successful_referrals s (lower addr))\<rparr>,
           s, g)"
  using assms by (simp add: get_or_create_referral_code_def Let_def max_rolls_of_def)

lemma get_or_create_new:
  assumes "enabled s" and "active_row_of s (lower addr) = None"
    and "generate_referral_code s clock g = Some ((code, tier), g')"
  shows "get_or_create_referral_code s now clock g addr =
     Some (\<lparr>info_code = code, info_rarity = tier, info_rolls_used = 1,
             info_rolls_remaining = BASE_ROLLS - 1, info_successful_referrals = Some 0\<rparr>,
           s\<lparr>codes_sheet := codes_sheet s @
               [\<lparr>address = lower addr, referral_code = code, rarity = tier, rolls_used = 1,
                 is_active = True, created_at = now\<rparr>]\<rparr>,
           g')"
  using assms by (simp add: get_or_create_referral_code_def Let_def)

lemma get_or_create_diverges:
  assumes "enabled s" and "active_row_of s (lower addr) = None"
    and "generate_referral_code s clock g = None"
  shows "get_or_create_referral_code s now clock g addr = None"
  using assms by (simp add: get_or_create_referral_code_def Let_def)

lemma active_row_after_create:
  assumes "active_row_of s (lower addr) = None"
  shows "active_row_of
     (s\<lparr>codes_sheet := codes_sheet s @
               [\<lparr>address = lower addr, referral_code = code, rarity = tier, rolls_used = 1,
                 is_active = True, created_at = now\<rparr>]\<rparr>) (lower addr)
     = Some \<lparr>address = lower addr, referral_code = code, rarity = tier, rolls_used = 1,
                 is_active = True, created_at = now\<rparr>"
  using assms by (simp add: active_row_of_def find_append_None lower_idem)

lemma get_or_create_again:
  assumes "enabled s"
    and "get_or_create_referral_code s now clock g addr = Some (info, s1, g1)"
  shows "\<exists>info2. get_or_create_referral_code s1 now2 clock2 g2 addr = Some (info2, s1, g2) \<and>
           info_code info2 = info_code info"
proof (cases "active_row_of s (lower addr)")
  case (Some row)
  from get_or_create_existing [OF assms(1) Some, of now clock g] assms(2)
  have "s1 = s" "info_code info = referral_code row" by auto
  then show ?thesis
    using get_or_create_existing [OF assms(1) Some, of now2 clock2 g2] by simp
next
  case None
  show ?thesis
  proof (cases "generate_referral_code s clock g")
    case None': None
    then show ?thesis
      using get_or_create_diverges [OF assms(1) None None', of now] assms(2) by simp
  next
    case (Some r)
    then obtain code tier g' where r: "generate_referral_code s clock g = Some ((code, tier), g')"
      by (cases r) auto
    let ?row = "\<lparr>address = lower addr, referral_code = code, rarity = tier, rolls_used = 1,
                 is_active = True, created_at = now\<rparr>"
    from get_or_create_new [OF assms(1) None r, of now] assms(2)
    have s1: "s1 = s\<lparr>codes_sheet := codes_sheet s @ [?row]\<rparr>" and c: "info_code info = code"
      by auto
    have "enabled s1" using assms(1) s1 by simp
    moreover have "active_row_of s1 (lower addr) = Some ?row"
      unfolding s1 using None by (rule active_row_after_create)
    ultimately show ?thesis
      using get_or_create_existing [of s1 addr ?row now2 clock2 g2] c by simp
  qed
qed

text \<open>
  C5. With an active row for the address, \<open>getOrCreate\<close> returns the code of that row
  and writes nothing. Without one it appends one row with \<open>rolls_used = 1\<close> and
  \<open>is_active\<close> true, carrying the generated code, and returns that code; when the
  generator does not return, the call does not return and nothing is written. A second
  call after a call that returned returns the same code and writes nothing.
\<close>

theorem get_or_create_idempotent:
  assumes "enabled s"
  shows "(\<forall>row. active_row_of s (lower addr) = Some row \<longrightarrow>
       (\<exists>info. get_or_create_referral_code s now clock g addr = Some (info, s, g) \<and>
               info_code info = referral_code row)) \<and>
    (\<forall>code tier g'. active_row_of s (lower addr) = None \<and>
         generate_referral_code s clock g = Some ((code, tier), g') \<longrightarrow>
       (\<exists>info. get_or_create_referral_code s now clock g addr =
           Some (info,
                 s\<lparr>codes_sheet := codes_sheet s @
                     [\<lparr>address = lower addr, referral_code = code, rarity = tier,
                       rolls_used = 1, is_active = True, created_at = now\<rparr>]\<rparr>,
                 g') \<and>
          info_code info = code \<and> info_rolls_used info = 1)) \<and>
    (active_row_of s (lower addr) = None \<and> generate_referral_code s clock g = None \<longrightarrow>
       get_or_create_referral_code s now clock g addr = None) \<and>
    (\<forall>info s1 g1. get_or_create_referral_code s now clock g addr = Some (info, s1, g1) \<longrightarrow>
       (\<exists>info2. get_or_create_referral_code s1 now2 clock2 g2 addr = Some (info2, s1, g2) \<and>
                info_code info2 = info_code info))"
proof (intro conjI allI impI)
  fix row assume "active_row_of s (lower addr) = Some row"
  from get_or_create_existing [OF assms this, of now clock g]
  show "\<exists>info. get_or_create_referral_code s now clock g addr = Some (info, s, g) \<and>
               info_code info = referral_code row"
    by simp
next
  fix code tier g'
  assume "active_row_of s (lower addr) = None \<and>
         generate_referral_code s clock g = Some ((code, tier), g')"
  then have "active_row_of s (lower addr) = None"
    "generate_referral_code s clock g = Some ((code, tier), g')" by simp_all
  from get_or_create_new [OF assms this, of now]
  show "\<exists>info. get_or_create_referral_code s now clock g addr =
           Some (info,
                 s\<lparr>codes_sheet := codes_sheet s @
                     [\<lparr>address = lower addr, referral_code = code, rarity = tier,
                       rolls_used = 1, is_active = True, created_at = now\<rparr>]\<rparr>,
                 g') \<and>
          info_code info = code \<and> info_rolls_used info = 1"
    by simp
next
  assume "active_row_of s (lower addr) = None \<and> generate_referral_code s clock g = None"
  then have "active_row_of s (lower addr) = None" "generate_referral_code s clock g = None"
    by simp_all
  from get_or_create_diverges [OF assms this]
  show "get_or_create_referral_code s now clock g addr = None" .
next
  fix info s1 g1
  assume "get_or_create_referral_code s now clock g addr = Some (info, s1, g1)"
  from get_or_create_again [OF assms this]
  show "\<exists>info2. get_or_create_referral_code s1 now2 clock2 g2 addr = Some (info2, s1, g2) \<and>
                info_code info2 = info_code info" .
qed

lemma sample_rng_number: "generate_special_number 2 sample_rng = Some (15, sconst 0)"
proof -
  have "generate_special_number 2 sample_rng
      = draw_common 10 99 (special_set 2) (stl sample_rng)"
    using sample_rng_common by (intro generate_common) simp_all
  then show ?thesis
    using draw_common_first_accepted [OF sample_rng_accepted] by simp
qed

lemma sample_compose:
  "compose_code code_rng =
     Some (\<lparr>a_code = ''GRAY-WAVE-15'', a_tier = ''COMMON'', a_color = ''GRAY'',
             a_word = ''WAVE''\<rparr>, sconst 0)"
  by (simp add: compose_code_def code_rng_def select_rarity_tier_def random_random_def
        RARITY_TIERS_def choice_def select_number_length_def LENGTH_WEIGHTS_def
        sample_rng_number format_code_def zero_padded_def)

lemma generate_loop_first:
  "compose_code g = Some (att, g') \<Longrightarrow> a_code att \<notin> set existing_codes \<Longrightarrow>
     generate_loop (Suc n) existing_codes clock prev g = Some ((a_code att, a_tier att), g')"
  by simp

lemma sample_generate:
  "generate_referral_code sample_service 1700000000 code_rng
     = Some ((''GRAY-WAVE-15'', ''COMMON''), sconst 0)"
proof -
  have m: "max_attempts = Suc 99" by (simp add: max_attempts_def)
  have ne: "a_code \<lparr>a_code = ''GRAY-WAVE-15'', a_tier = ''COMMON'', a_color = ''GRAY'',
             a_word = ''WAVE''\<rparr> \<notin> set (map referral_code (codes_sheet sample_service))"
    by (simp add: sample_service_def)
  from generate_loop_first [OF sample_compose ne, of 99 1700000000]
  show ?thesis
    unfolding generate_referral_code_def m by simp
qed

lemma sample_bob_no_code: "active_row_of sample_service (lower bob) = None"
  by code_simp

lemma sample_service_enabled: "enabled sample_service"
  by (simp add: sample_service_def)

theorem get_or_create_idempotent_witness:
  "\<exists>info. get_or_create_referral_code sample_service ''2025-10-03T00:00:00Z'' 1700000000
            code_rng bob =
       Some (info,
             sample_service\<lparr>codes_sheet := codes_sheet sample_service @
                 [\<lparr>address = lower bob, referral_code = ''GRAY-WAVE-15'', rarity = ''COMMON'',
                   rolls_used = 1, is_active = True,
                   created_at = ''2025-10-03T00:00:00Z''\<rparr>]\<rparr>,
             sconst 0) \<and>
       info_code info = ''GRAY-WAVE-15'' \<and> info_rolls_used info = 1"
  using get_or_create_idempotent [OF sample_service_enabled, where addr=bob
      and clock=1700000000 and g=code_rng and now="''2025-10-03T00:00:00Z''"]
    sample_bob_no_code sample_generate
  by blast


section \<open>The roll economy\<close>

lemma max_rolls_of_values:
  "max_rolls_of s a = (if count_successful_referrals s a \<ge> 3 then 6 else 3)"
  by (simp add: max_rolls_of_def UNLOCK_THRESHOLD_def BASE_ROLLS_def BONUS_ROLLS_def)

lemma max_rolls_of_lower: "max_rolls_of s (lower a) = max_rolls_of s a"
  by (simp add: max_rolls_of_def count_successful_referrals_def lower_idem)

lemma max_rolls_of_mono:
  assumes "codes_sheet s' = codes_sheet s" and "referrals_sheet s' = referrals_sheet s @ rows"
  shows "max_rolls_of s a \<le> max_rolls_of s' a"
  using assms by (simp add: max_rolls_of_values count_successful_referrals_def)

lemma max_rolls_of_codes:
  "referrals_sheet s' = referrals_sheet s \<Longrightarrow> max_rolls_of s' a = max_rolls_of s a"
  by (simp add: max_rolls_of_def count_successful_referrals_def)

lemma regenerate_no_rolls:
  assumes "enabled s"
    and "filter (\<lambda>row. lower (address row) = lower addr) (codes_sheet s) \<noteq> []"
    and "Max (set (map rolls_used (filter (\<lambda>row. lower (address row) = lower addr)
            (codes_sheet s)))) \<ge> max_rolls_of s (lower addr)"
  shows "regenerate_referral_code s now clock g addr =
     Some (Inl (NoRollsRemaining
                  (Max (set (map rolls_used (filter (\<lambda>row. lower (address row) = lower addr)
                     (codes_sheet s)))))
                  (max_rolls_of s (lower addr))), s, g)"
  using assms by (simp add: regenerate_referral_code_def Let_def max_rolls_of_def)

lemma regenerate_success:
  assumes "regenerate_referral_code s now clock g addr = Some (Inr info, s', g')"
  shows "info_rolls_used info \<le> max_rolls_of s (lower addr) \<and>
         codes_sheet s' = map (deactivate (lower addr)) (codes_sheet s) @
           [\<lparr>address = lower addr, referral_code = info_code info, rarity = info_rarity info,
             rolls_used = info_rolls_used info, is_active = True, created_at = now\<rparr>] \<and>
         referrals_sheet s' = referrals_sheet s"
  using assms
  by (auto simp add: regenerate_referral_code_def Let_def max_rolls_of_def
        split: if_splits option.splits prod.splits)

lemma regenerate_failure:
  "regenerate_referral_code s now clock g addr = Some (Inl e, s', g') \<Longrightarrow> s' = s \<and> g' = g"
  by (auto simp add: regenerate_referral_code_def Let_def
        split: if_splits option.splits prod.splits)

lemma deactivate_keeps:
  "address (deactivate a row) = address row" "rolls_used (deactivate a row) = rolls_used row"
  by (simp_all add: deactivate_def)

lemma rolls_within_limit_regenerate:
  assumes "rolls_within_limit s"
    and "regenerate_referral_code s now clock g addr = Some (res, s', g')"
  shows "rolls_within_limit s'"
proof (cases res)
  case (Inl e)
  then show ?thesis using assms regenerate_failure by blast
next
  case (Inr info)
  with assms(2) regenerate_success [of s now clock g addr info s' g']
  have le: "info_rolls_used info \<le> max_rolls_of s (lower addr)"
    and cs: "codes_sheet s' = map (deactivate (lower addr)) (codes_sheet s) @
           [\<lparr>address = lower addr, referral_code = info_code info, rarity = info_rarity info,
             rolls_used = info_rolls_used info, is_active = True, created_at = now\<rparr>]"
    and rs: "referrals_sheet s' = referrals_sheet s"
    by simp_all
  have m: "max_rolls_of s' a = max_rolls_of s a" for a
    using rs by (rule max_rolls_of_codes)
  show ?thesis
    unfolding rolls_within_limit_def cs m
    using assms(1) le
    by (auto simp add: rolls_within_limit_def deactivate_keeps max_rolls_of_lower)
qed

lemma get_or_create_shape:
  assumes "get_or_create_referral_code s now clock g addr = Some (info, s', g')"
  shows "s' = s \<or>
     (\<exists>code tier. s' = s\<lparr>codes_sheet := codes_sheet s @
         [\<lparr>address = lower addr, referral_code = code, rarity = tier, rolls_used = 1,
           is_active = True, created_at = now\<rparr>]\<rparr>)"
proof (cases "enabled s")
  case False
  then show ?thesis using assms by (simp add: get_or_create_referral_code_def)
next
  case True
  show ?thesis
  proof (cases "active_row_of s (lower addr)")
    case (Some row)
    from get_or_create_existing [OF True Some, of now clock g] assms
    show ?thesis by simp
  next
    case None
    show ?thesis
    proof (cases "generate_referral_code s clock g")
      case gen: None
      from get_or_create_diverges [OF True None gen, of now] assms
      show ?thesis by simp
    next
      case gen: (Some r)
      obtain code tier g1 where r: "r = ((code, tier), g1)" by (metis prod.collapse)
      from get_or_create_new [OF True None gen [unfolded r], of now] assms
      have "s' = s\<lparr>codes_sheet := codes_sheet s @
         [\<lparr>address = lower addr, referral_code = code, rarity = tier, rolls_used = 1,
           is_active = True, created_at = now\<rparr>]\<rparr>" by simp
      then show ?thesis by blast
    qed
  qed
qed

lemma rolls_within_limit_get_or_create:
  assumes "rolls_within_limit s"
    and "get_or_create_referral_code s now clock g addr = Some (info, s', g')"
  shows "rolls_within_limit s'"
proof -
  from get_or_create_shape [OF assms(2)] show ?thesis
  proof
    assume "s' = s" then show ?thesis using assms(1) by simp
  next
    assume "\<exists>code tier. s' = s\<lparr>codes_sheet := codes_sheet s @
         [\<lparr>address = lower addr, referral_code = code, rarity = tier, rolls_used = 1,
           is_active = True, created_at = now\<rparr>]\<rparr>"
    then obtain code tier where s': "s' = s\<lparr>codes_sheet := codes_sheet s @
         [\<lparr>address = lower addr, referral_code = code, rarity = tier, rolls_used = 1,
           is_active = True, created_at = now\<rparr>]\<rparr>" by blast
    have m: "max_rolls_of s' a = max_rolls_of s a" for a
      unfolding s' by (rule max_rolls_of_codes) simp
    have "1 \<le> max_rolls_of s (lower addr)" by (simp add: max_rolls_of_values)
    then show ?thesis
      unfolding rolls_within_limit_def m using assms(1)
      by (auto simp add: s' rolls_within_limit_def)
  qed
qed

lemma rolls_within_limit_use:
  assumes "rolls_within_limit s"
    and "use_referral_code L now s code referred amount = (res, s')"
  shows "rolls_within_limit s'"
proof (cases res)
  case (Inl e)
  then show ?thesis
    using assms use_referral_code_cases [where L=L and now=now and s=s and code=code
        and referred=referred and amount=amount] by simp
next
  case (Inr ok)
  then have s': "s' = s\<lparr>referrals_sheet := referrals_sheet s @ [last (referrals_sheet s')]\<rparr>"
    using assms(2) use_referral_code_cases [where L=L and now=now and s=s and code=code
        and referred=referred and amount=amount] by simp
  have cs: "codes_sheet s' = codes_sheet s" by (subst s') simp
  have rs: "referrals_sheet s' = referrals_sheet s @ [last (referrals_sheet s')]"
    by (subst s') simp
  have "max_rolls_of s a \<le> max_rolls_of s' a" for a
    using cs rs by (rule max_rolls_of_mono)
  then show ?thesis
    using assms(1) unfolding rolls_within_limit_def cs by (meson order_trans)
qed

lemma snapshot_keeps_codes:
  "codes_sheet (snd (snapshot_daily_balances L c s today timestamp)) = codes_sheet s \<and>
   referrals_sheet (snd (snapshot_daily_balances L c s today timestamp)) = referrals_sheet s"
  by (simp add: snapshot_daily_balances_def Let_def)

lemma rolls_within_limit_snapshot:
  assumes "rolls_within_limit s"
    and "snapshot_daily_balances L c s today timestamp = (res, s')"
  shows "rolls_within_limit s'"
proof -
  have s': "s' = snd (snapshot_daily_balances L c s today timestamp)"
    using assms(2) by simp
  have cs: "codes_sheet s' = codes_sheet s" and rs: "referrals_sheet s' = referrals_sheet s"
    unfolding s' using snapshot_keeps_codes by blast+
  have m: "max_rolls_of s' a = max_rolls_of s a" for a
    using rs by (rule max_rolls_of_codes)
  show ?thesis
    using assms(1) unfolding rolls_within_limit_def cs m .
qed

lemma reachable_rolls_within_limit: "reachable L s \<Longrightarrow> rolls_within_limit s"
proof (induction rule: reachable.induct)
  case (start e)
  show ?case by (simp add: rolls_within_limit_def)
next
  case (get_or_create_step s now clock g addr info s' g')
  from get_or_create_step.IH get_or_create_step.hyps(2)
  show ?case by (rule rolls_within_limit_get_or_create)
next
  case (regenerate_step s now clock g addr res s' g')
  from regenerate_step.IH regenerate_step.hyps(2)
  show ?case by (rule rolls_within_limit_regenerate)
next
  case (use_step s now code referred amount ures s')
  from use_step.IH use_step.hyps(2)
  show ?case by (rule rolls_within_limit_use)
next
  case (snapshot_step s c today timestamp sres s')
  from snapshot_step.IH snapshot_step.hyps(2)
  show ?case by (rule rolls_within_limit_snapshot)
qed

lemma regenerate_new:
  assumes "enabled s"
    and "filter (\<lambda>row. lower (address row) = lower addr) (codes_sheet s) \<noteq> []"
    and "Max (set (map rolls_used (filter (\<lambda>row. lower (address row) = lower addr)
            (codes_sheet s)))) = cur"
    and "cur < max_rolls_of s (lower addr)"
    and "generate_referral_code (s\<lparr>codes_sheet := map (deactivate (lower addr)) (codes_sheet s)\<rparr>)
           clock g = Some ((code, tier), g')"
  shows "regenerate_referral_code s now clock g addr =
     Some (Inr \<lparr>info_code = code, info_rarity = tier, info_rolls_used = cur + 1,
                 info_rolls_remaining = max_rolls_of s (lower addr) - (cur + 1),
                 info_successful_referrals = Some (count_successful_referrals s (lower addr))\<rparr>,
           s\<lparr>codes_sheet := map (deactivate (lower addr)) (codes_sheet s) @
               [\<lparr>address = lower addr, referral_code = code, rarity = tier,
                 rolls_used = cur + 1, is_active = True, created_at = now\<rparr>]\<rparr>,
           g')"
  using assms by (simp add: regenerate_referral_code_def Let_def max_rolls_of_def)

lemma deactivate_keeps_code: "referral_code (deactivate a row) = referral_code row"
  by (simp add: deactivate_def)

lemma lower_alice: "lower alice = alice"
  by code_simp

lemma wind_compose:
  "compose_code wind_rng =
     Some (\<lparr>a_code = ''GRAY-WIND-15'', a_tier = ''COMMON'', a_color = ''GRAY'',
             a_word = ''WIND''\<rparr>, sconst 0)"
  by (simp add: compose_code_def wind_rng_def select_rarity_tier_def random_random_def
        RARITY_TIERS_def choice_def select_number_length_def LENGTH_WEIGHTS_def
        sample_rng_number format_code_def zero_padded_def)

lemma silver_compose:
  "compose_code silver_rng =
     Some (\<lparr>a_code = ''SILVER-WAVE-15'', a_tier = ''COMMON'', a_color = ''SILVER'',
             a_word = ''WAVE''\<rparr>, sconst 0)"
  by (simp add: compose_code_def silver_rng_def select_rarity_tier_def random_random_def
        RARITY_TIERS_def choice_def select_number_length_def LENGTH_WEIGHTS_def
        sample_rng_number format_code_def zero_padded_def)

lemma generate_first:
  assumes "compose_code g = Some (att, g')"
    and "a_code att \<notin> set (map referral_code (codes_sheet s))"
  shows "generate_referral_code s clock g = Some ((a_code att, a_tier att), g')"
proof -
  have m: "max_attempts = Suc 99" by (simp add: max_attempts_def)
  from generate_loop_first [OF assms, of 99 clock]
  show ?thesis unfolding generate_referral_code_def m by simp
qed

lemma issued_get_or_create:
  "get_or_create_referral_code empty_service ''2025-10-01T00:00:00Z'' 1700000000 code_rng alice
     = Some (\<lparr>info_code = ''GRAY-WAVE-15'', info_rarity = ''COMMON'', info_rolls_used = 1,
               info_rolls_remaining = BASE_ROLLS - 1, info_successful_referrals = Some 0\<rparr>,
             issued_service, sconst 0)"
proof -
  have e: "enabled empty_service" by (simp add: empty_service_def)
  have n: "active_row_of empty_service (lower alice) = None"
    by (simp add: empty_service_def active_row_of_def)
  have g: "generate_referral_code empty_service 1700000000 code_rng
             = Some ((''GRAY-WAVE-15'', ''COMMON''), sconst 0)"
    using generate_first [OF sample_compose, of empty_service 1700000000]
    by (simp add: empty_service_def)
  have s: "empty_service\<lparr>codes_sheet := codes_sheet empty_service @
               [\<lparr>address = lower alice, referral_code = ''GRAY-WAVE-15'', rarity = ''COMMON'',
                 rolls_used = 1, is_active = True,
                 created_at = ''2025-10-01T00:00:00Z''\<rparr>]\<rparr> = issued_service"
    by (simp add: empty_service_def issued_service_def lower_alice)
  from get_or_create_new [OF e n g, of "''2025-10-01T00:00:00Z''"]
  show ?thesis unfolding s .
qed

lemma rolled_regenerate:
  "regenerate_referral_code issued_service ''2025-10-01T01:00:00Z'' 1700000000 wind_rng alice
     = Some (Inr \<lparr>info_code = ''GRAY-WIND-15'', info_rarity = ''COMMON'', info_rolls_used = 2,
                   info_rolls_remaining = 1, info_successful_referrals = Some 0\<rparr>,
             rolled_service, sconst 0)"
proof -
  have e: "enabled issued_service" by (simp add: issued_service_def)
  have r: "filter (\<lambda>row. lower (address row) = lower alice) (codes_sheet issued_service) \<noteq> []"
    by (simp add: issued_service_def)
  have c: "Max (set (map rolls_used (filter (\<lambda>row. lower (address row) = lower alice)
            (codes_sheet issued_service)))) = 1"
    by (simp add: issued_service_def)
  have z: "count_successful_referrals issued_service (lower alice) = 0"
    by (simp add: count_successful_referrals_def issued_service_def)
  have m: "max_rolls_of issued_service (lower alice) = 3"
    by (simp add: max_rolls_of_values z)
  have l: "1 < max_rolls_of issued_service (lower alice)" by (simp add: m)
  have g: "generate_referral_code
             (issued_service\<lparr>codes_sheet :=
                map (deactivate (lower alice)) (codes_sheet issued_service)\<rparr>)
             1700000000 wind_rng
           = Some ((''GRAY-WIND-15'', ''COMMON''), sconst 0)"
    using generate_first [OF wind_compose, of
        "issued_service\<lparr>codes_sheet :=
           map (deactivate (lower alice)) (codes_sheet issued_service)\<rparr>" 1700000000]
    by (simp add: deactivate_keeps_code issued_service_def)
  have s: "issued_service\<lparr>codes_sheet :=
               map (deactivate (lower alice)) (codes_sheet issued_service) @
               [\<lparr>address = lower alice, referral_code = ''GRAY-WIND-15'', rarity = ''COMMON'',
                 rolls_used = 1 + 1, is_active = True,
                 created_at = ''2025-10-01T01:00:00Z''\<rparr>]\<rparr> = rolled_service"
    by (simp add: issued_service_def rolled_service_def deactivate_def lower_alice)
  from regenerate_new [OF e r c l g, of "''2025-10-01T01:00:00Z''"]
  show ?thesis unfolding s m z by simp
qed

lemma spent_regenerate:
  "regenerate_referral_code rolled_service ''2025-10-01T02:00:00Z'' 1700000000 silver_rng alice
     = Some (Inr \<lparr>info_code = ''SILVER-WAVE-15'', info_rarity = ''COMMON'',
                   info_rolls_used = 3, info_rolls_remaining = 0,
                   info_successful_referrals = Some 0\<rparr>,
             spent_service, sconst 0)"
proof -
  have e: "enabled rolled_service" by (simp add: rolled_service_def)
  have r: "filter (\<lambda>row. lower (address row) = lower alice) (codes_sheet rolled_service) \<noteq> []"
    by (simp add: rolled_service_def)
  have c: "Max (set (map rolls_used (filter (\<lambda>row. lower (address row) = lower alice)
            (codes_sheet rolled_service)))) = 2"
    by (simp add: rolled_service_def)
  have z: "count_successful_referrals rolled_service (lower alice) = 0"
    by (simp add: count_successful_referrals_def rolled_service_def)
  have m: "max_rolls_of rolled_service (lower alice) = 3"
    by (simp add: max_rolls_of_values z)
  have l: "2 < max_rolls_of rolled_service (lower alice)" by (simp add: m)
  have g: "generate_referral_code
             (rolled_service\<lparr>codes_sheet :=
                map (deactivate (lower alice)) (codes_sheet rolled_service)\<rparr>)
             1700000000 silver_rng
           = Some ((''SILVER-WAVE-15'', ''COMMON''), sconst 0)"
    using generate_first [OF silver_compose, of
        "rolled_service\<lparr>codes_sheet :=
           map (deactivate (lower alice)) (codes_sheet rolled_service)\<rparr>" 1700000000]
    by (simp add: deactivate_keeps_code rolled_service_def)
  have s: "rolled_service\<lparr>codes_sheet :=
               map (deactivate (lower alice)) (codes_sheet rolled_service) @
               [\<lparr>address = lower alice, referral_code = ''SILVER-WAVE-15'', rarity = ''COMMON'',
                 rolls_used = 2 + 1, is_active = True,
                 created_at = ''2025-10-01T02:00:00Z''\<rparr>]\<rparr> = spent_service"
    by (simp add: rolled_service_def spent_service_def deactivate_def lower_alice)
  from regenerate_new [OF e r c l g, of "''2025-10-01T02:00:00Z''"]
  show ?thesis unfolding s m z by simp
qed

lemma spent_reachable: "reachable L spent_service"
proof -
  have "reachable L empty_service"
    unfolding empty_service_def by (rule reachable.start)
  from this issued_get_or_create have "reachable L issued_service"
    by (rule reachable.get_or_create_step)
  from this rolled_regenerate have "reachable L rolled_service"
    by (rule reachable.regenerate_step)
  from this spent_regenerate show ?thesis
    by (rule reachable.regenerate_step)
qed

lemma spent_enabled: "enabled spent_service"
  by (simp add: spent_service_def)

lemma spent_rows:
  "filter (\<lambda>row. lower (address row) = lower alice) (codes_sheet spent_service) \<noteq> []"
  by (simp add: spent_service_def)

lemma spent_rolls:
  "Max (set (map rolls_used (filter (\<lambda>row. lower (address row) = lower alice)
          (codes_sheet spent_service)))) = 3"
  by (simp add: spent_service_def)

lemma spent_limit: "max_rolls_of spent_service alice = 3"
  by (simp add: max_rolls_of_values count_successful_referrals_def spent_service_def)

text \<open>
  C4. \<^verbatim>\<open>max_rolls\<close> of an address is 3, or 6 when the Referrals sheet holds at least
  three rows with that address as referrer. For an address with at least one row in the
  Codes sheet, when the largest \<open>rolls_used\<close> of its rows is at least \<^verbatim>\<open>max_rolls\<close>,
  \<^verbatim>\<open>regenerate_referral_code\<close> fails with "No rolls remaining" and returns the service
  as it was: no row is deactivated and none is appended. A regeneration that succeeds
  appends one row, whose \<open>rolls_used\<close> is at most \<^verbatim>\<open>max_rolls\<close>, and leaves the
  Referrals sheet as it was. Consequently, in every service the operations produce from
  empty sheets, no row of the Codes sheet has a \<open>rolls_used\<close> above the \<^verbatim>\<open>max_rolls\<close>
  of its address.
\<close>

theorem regenerate_within_max_rolls:
  "max_rolls_of s addr = (if 3 \<le> count_successful_referrals s addr then 6 else 3) \<and>
   (enabled s \<and>
    filter (\<lambda>row. lower (address row) = lower addr) (codes_sheet s) \<noteq> [] \<and>
    max_rolls_of s addr \<le> Max (set (map rolls_used
        (filter (\<lambda>row. lower (address row) = lower addr) (codes_sheet s)))) \<longrightarrow>
      regenerate_referral_code s now clock g addr =
        Some (Inl (NoRollsRemaining
                (Max (set (map rolls_used
                   (filter (\<lambda>row. lower (address row) = lower addr) (codes_sheet s)))))
                (max_rolls_of s addr)), s, g)) \<and>
   (\<forall>info s' g'. regenerate_referral_code s now clock g addr = Some (Inr info, s', g') \<longrightarrow>
      info_rolls_used info \<le> max_rolls_of s addr \<and>
      codes_sheet s' = map (deactivate (lower addr)) (codes_sheet s) @
        [\<lparr>address = lower addr, referral_code = info_code info, rarity = info_rarity info,
          rolls_used = info_rolls_used info, is_active = True, created_at = now\<rparr>] \<and>
      referrals_sheet s' = referrals_sheet s) \<and>
   (reachable L s \<longrightarrow>
      (\<forall>row \<in> set (codes_sheet s). rolls_used row \<le> max_rolls_of s (address row)))"
proof (intro conjI allI impI)
  show "max_rolls_of s addr = (if 3 \<le> count_successful_referrals s addr then 6 else 3)"
    by (rule max_rolls_of_values)
next
  assume a: "enabled s \<and>
    filter (\<lambda>row. lower (address row) = lower addr) (codes_sheet s) \<noteq> [] \<and>
    max_rolls_of s addr \<le> Max (set (map rolls_used
        (filter (\<lambda>row. lower (address row) = lower addr) (codes_sheet s))))"
  then have "enabled s"
    "filter (\<lambda>row. lower (address row) = lower addr) (codes_sheet s) \<noteq> []"
    "max_rolls_of s (lower addr) \<le> Max (set (map rolls_used
        (filter (\<lambda>row. lower (address row) = lower addr) (codes_sheet s))))"
    by (simp_all add: max_rolls_of_lower)
  from regenerate_no_rolls [OF this, of now clock g]
  show "regenerate_referral_code s now clock g addr =
        Some (Inl (NoRollsRemaining
                (Max (set (map rolls_used
                   (filter (\<lambda>row. lower (address row) = lower addr) (codes_sheet s)))))
                (max_rolls_of s addr)), s, g)"
    by (simp add: max_rolls_of_lower)
next
  fix info s' g'
  assume "regenerate_referral_code s now clock g addr = Some (Inr info, s', g')"
  from regenerate_success [OF this]
  show "info_rolls_used info \<le> max_rolls_of s addr"
    and "codes_sheet s' = map (deactivate (lower addr)) (codes_sheet s) @
        [\<lparr>address = lower addr, referral_code = info_code info, rarity = info_rarity info,
          rolls_used = info_rolls_used info, is_active = True, created_at = now\<rparr>]"
    and "referrals_sheet s' = referrals_sheet s"
    by (simp_all add: max_rolls_of_lower)
next
  assume "reachable L s"
  then have "rolls_within_limit s" by (rule reachable_rolls_within_limit)
  then show "\<forall>row \<in> set (codes_sheet s). rolls_used row \<le> max_rolls_of s (address row)"
    by (simp add: rolls_within_limit_def)
qed

lemma spent_last: "last (codes_sheet spent_service) \<in> set (codes_sheet spent_service)"
  by (simp add: spent_service_def)

theorem regenerate_within_max_rolls_witness:
  "regenerate_referral_code spent_service ''2025-10-01T03:00:00Z'' 1700000000 code_rng alice
     = Some (Inl (NoRollsRemaining 3 3), spent_service, code_rng) \<and>
   reachable sample_lib spent_service \<and>
   rolls_used (last (codes_sheet spent_service))
     \<le> max_rolls_of spent_service (address (last (codes_sheet spent_service)))"
proof -
  note t = regenerate_within_max_rolls [where s=spent_service and addr=alice
      and now="''2025-10-01T03:00:00Z''" and clock=1700000000 and g=code_rng
      and L=sample_lib]
  have h: "enabled spent_service \<and>
    filter (\<lambda>row. lower (address row) = lower alice) (codes_sheet spent_service) \<noteq> [] \<and>
    max_rolls_of spent_service alice \<le> Max (set (map rolls_used
        (filter (\<lambda>row. lower (address row) = lower alice) (codes_sheet spent_service))))"
    unfolding spent_rolls spent_limit using spent_enabled spent_rows by simp
  from t [THEN conjunct2, THEN conjunct1, THEN mp, OF h]
  have a: "regenerate_referral_code spent_service ''2025-10-01T03:00:00Z'' 1700000000 code_rng
          alice = Some (Inl (NoRollsRemaining 3 3), spent_service, code_rng)"
    unfolding spent_rolls spent_limit .
  from t [THEN conjunct2, THEN conjunct2, THEN conjunct2, THEN mp, OF spent_reachable]
    spent_last
  have b: "rolls_used (last (codes_sheet spent_service))
     \<le> max_rolls_of spent_service (address (last (codes_sheet spent_service)))"
    by (rule bspec)
  from a spent_reachable b show ?thesis by (intro conjI)
qed

end
